theory Spec2Isabelle
  imports Complex_Main
begin

section \<open>covviz: the report builder of indexcov-nf\<close>

text \<open>
  A shallow embedding of \<^verbatim>\<open>src/covviz/covviz.py\<close>: the ROC trace builder
  \<^verbatim>\<open>parse_roc\<close>, the payload packer \<^verbatim>\<open>compress_data\<close>, the argument
  defaults of \<^verbatim>\<open>parse_args\<close> and the driver \<^verbatim>\<open>cli\<close>. Python exceptions are
  values of type \<open>error\<close>; a function that may raise returns \<open>error + 'a\<close>.
\<close>

subsection \<open>Exceptions\<close>

datatype error =
    KeyError string
  | ValueError
  | AttributeError
  | IOError string
  | Raised string

subsection \<open>Python values that reach the JSON payload\<close>

text \<open>
  A float is either one of the three special values or a finite number. Floating-point
  formatting is not modelled: a finite float carries the text \<^verbatim>\<open>float.__repr__\<close>
  prints for it.
\<close>

datatype pyfloat = NaN | Infinity | NegInfinity | Finite string

datatype json =
    JNull
  | JBool bool
  | JInt int
  | JFloat pyfloat
  | JStr string
  | JList "json list"
  | JDict "(string \<times> json) list"

subsection \<open>Insertion-ordered dictionaries\<close>

text \<open>
  A Python \<^verbatim>\<open>dict\<close> keeps its keys in insertion order; assigning to a key that is
  present keeps the key's position and replaces the value.
\<close>

type_synonym 'v dict = "(string \<times> 'v) list"

definition keys :: "'v dict \<Rightarrow> string list" where
  "keys d = map fst d"

definition dict_get :: "'v dict \<Rightarrow> string \<Rightarrow> 'v option" where
  "dict_get d k = map_of d k"

fun dict_set :: "string \<Rightarrow> 'v \<Rightarrow> 'v dict \<Rightarrow> 'v dict" where
  "dict_set k v [] = [(k, v)]"
| "dict_set k v ((k', v') # d) =
     (if k = k' then (k, v) # d else (k', v') # dict_set k v d)"

text \<open>\<^verbatim>\<open>dict(pairs)\<close>: later pairs overwrite earlier ones with the same key.\<close>

definition dict_of :: "(string \<times> 'v) list \<Rightarrow> 'v dict" where
  "dict_of kvs = fold (\<lambda>(k, v) d. dict_set k v d) kvs []"

text \<open>Reading a \<^verbatim>\<open>defaultdict\<close>: a missing key reads as the default.\<close>

definition dict_default :: "'v dict \<Rightarrow> string \<Rightarrow> 'v \<Rightarrow> 'v" where
  "dict_default d k dflt = (case dict_get d k of None \<Rightarrow> dflt | Some v \<Rightarrow> v)"

subsection \<open>String operations\<close>

text \<open>\<^verbatim>\<open>s.strip(chars)\<close> removes, at both ends, every character that is in \<open>chars\<close>.\<close>

definition py_strip :: "string \<Rightarrow> string \<Rightarrow> string" where
  "py_strip chars s =
     rev (dropWhile (\<lambda>c. c \<in> set chars) (rev (dropWhile (\<lambda>c. c \<in> set chars) s)))"

text \<open>
  \<^verbatim>\<open>s.replace(old, new)\<close> replaces the non-overlapping occurrences of \<open>old\<close>, found
  from left to right. With an empty \<open>old\<close>, \<open>new\<close> is inserted before every character
  and at the end.
\<close>

function py_replace :: "string \<Rightarrow> string \<Rightarrow> string \<Rightarrow> string" where
  "py_replace old new s =
     (if old = [] then new @ concat (map (\<lambda>c. c # new) s)
      else if s = [] then []
      else if take (length old) s = old then new @ py_replace old new (drop (length old) s)
      else hd s # py_replace old new (tl s))"
  by pat_completeness auto
termination
  by (relation "measure (\<lambda>(old, new, s). length s)") (auto simp: neq_Nil_conv)

declare py_replace.simps [simp del]

text \<open>\<^verbatim>\<open>sep.join(parts)\<close>.\<close>

fun py_join :: "string \<Rightarrow> string list \<Rightarrow> string" where
  "py_join sep [] = []"
| "py_join sep [x] = x"
| "py_join sep (x # y # ys) = x @ sep @ py_join sep (y # ys)"

subsection \<open>The ROC trace builder\<close>

text \<open>
  \<^verbatim>\<open>gzopen\<close> is imported from \<^verbatim>\<open>.utils\<close>; it is a parameter here. The handle it
  returns stands for the records \<^verbatim>\<open>csv.reader(fh, delimiter="\t")\<close> yields from it,
  one list of fields per line, a blank line being the empty list.

  \<^verbatim>\<open>csv.DictReader\<close> takes the first record as the field names, skips blank records
  and turns every other record into a dict from field name to field. A record shorter
  than the header maps the remaining names to \<^verbatim>\<open>None\<close>. The fields of a longer record
  are stored under the key \<^verbatim>\<open>None\<close>, which no lookup by a string can reach; that entry
  is left out.
\<close>

type_synonym cell = "string option"
type_synonym row = "cell dict"

definition dict_row :: "string list \<Rightarrow> string list \<Rightarrow> row" where
  "dict_row fieldnames r =
     dict_of (zip fieldnames (map Some r @ replicate (length fieldnames - length r) None))"

definition DictReader :: "string list list \<Rightarrow> row list" where
  "DictReader fh =
     (case fh of
        [] \<Rightarrow> []
      | fieldnames # rest \<Rightarrow> map (dict_row fieldnames) (filter (\<lambda>r. r \<noteq> []) rest))"

text \<open>
  \<^verbatim>\<open>data = defaultdict(lambda: defaultdict(list))\<close>: per chromosome, per column name,
  the fields collected so far. \<^verbatim>\<open>data[chr][k].append(v)\<close> creates the missing levels.
\<close>

type_synonym roc_data = "cell list dict dict"

definition data_get :: "roc_data \<Rightarrow> string \<Rightarrow> string \<Rightarrow> cell list" where
  "data_get data chr k = dict_default (dict_default data chr []) k []"

definition data_append :: "string \<Rightarrow> string \<Rightarrow> cell \<Rightarrow> roc_data \<Rightarrow> roc_data" where
  "data_append chr k v data =
     (let inner = dict_default data chr []
      in dict_set chr (dict_set k (dict_default inner k [] @ [v]) inner) data)"

text \<open>Lines 139-140: \<^verbatim>\<open>for sample in samples: data[chr][sample].append(row[sample])\<close>.\<close>

fun append_samples :: "string \<Rightarrow> row \<Rightarrow> string list \<Rightarrow> roc_data \<Rightarrow> error + roc_data" where
  "append_samples chr row [] data = Inr data"
| "append_samples chr row (sample # samples) data =
     (case dict_get row sample of
        None \<Rightarrow> Inl (KeyError sample)
      | Some v \<Rightarrow> append_samples chr row samples (data_append chr sample v data))"

text \<open>
  Lines 132-140, the body of the loop over the rows. \<open>tkeys\<close> is \<^verbatim>\<open>traces.keys()\<close> at
  that point, the key \<^verbatim>\<open>"roc"\<close> included. A field that is \<^verbatim>\<open>None\<close> differs from
  \<^verbatim>\<open>"#chrom"\<close> and has no \<^verbatim>\<open>strip\<close>.
\<close>

definition roc_row :: "string list \<Rightarrow> string list \<Rightarrow> row \<Rightarrow> roc_data \<Rightarrow> error + roc_data" where
  "roc_row tkeys samples row data =
     (case dict_get row ''#chrom'' of
        None \<Rightarrow> Inl (KeyError ''#chrom'')
      | Some None \<Rightarrow> Inl AttributeError
      | Some (Some c) \<Rightarrow>
          if c = ''#chrom'' then Inr data
          else let chr = py_strip ''chr'' c
               in if chr \<notin> set tkeys then Inr data
                  else (case dict_get row ''cov'' of
                          None \<Rightarrow> Inl (KeyError ''cov'')
                        | Some v \<Rightarrow> append_samples chr row samples (data_append chr ''x'' v data)))"

fun roc_rows :: "string list \<Rightarrow> string list \<Rightarrow> row list \<Rightarrow> roc_data \<Rightarrow> error + roc_data" where
  "roc_rows tkeys samples [] data = Inr data"
| "roc_rows tkeys samples (row # rows) data =
     (case roc_row tkeys samples row data of
        Inl e \<Rightarrow> Inl e
      | Inr data' \<Rightarrow> roc_rows tkeys samples rows data')"

definition cell_json :: "cell \<Rightarrow> json" where
  "cell_json v = (case v of None \<Rightarrow> JNull | Some s \<Rightarrow> JStr s)"

text \<open>Lines 145-152: the trace of one sample on one chromosome.\<close>

definition roc_trace :: "roc_data \<Rightarrow> string \<Rightarrow> string \<Rightarrow> json" where
  "roc_trace data chr sample =
     JDict [(''x'', JList (map cell_json (data_get data chr ''x''))),
            (''y'', JList (map cell_json (drop 1 (data_get data chr sample)))),
            (''hoverinfo'', JStr ''text''),
            (''mode'', JStr ''lines''),
            (''text'', JStr sample),
            (''marker'', JDict [(''color'', JStr ''rgba(108,117,125,0.2)'')])]"

text \<open>Lines 142-153: the dict that ends up under \<^verbatim>\<open>traces["roc"]\<close>.\<close>

definition roc_dict :: "string list \<Rightarrow> string list \<Rightarrow> roc_data \<Rightarrow> json dict" where
  "roc_dict chroms samples data =
     fold (\<lambda>chr roc. dict_set chr (JList (map (roc_trace data chr) samples)) roc) chroms []"

text \<open>
  \<^verbatim>\<open>chroms.index("chromosomes")\<close> raises \<^verbatim>\<open>ValueError\<close> when the key is absent. The
  dict assigned to \<^verbatim>\<open>traces["roc"]\<close> on line 126 is the object that lines 143 and 153
  fill, so the returned collection holds the filled dict at the position the key got
  on line 126.
\<close>

definition parse_roc ::
  "(string \<Rightarrow> error + string list list) \<Rightarrow> string \<Rightarrow> json dict \<Rightarrow> string list \<Rightarrow> error + json dict" where
  "parse_roc gzopen path traces samples =
     (if ''chromosomes'' \<notin> set (keys traces) then Inl ValueError
      else
        let chroms = remove1 ''chromosomes'' (keys traces);
            traces1 = dict_set ''roc'' (JDict []) traces
        in case gzopen path of
             Inl e \<Rightarrow> Inl e
           | Inr fh \<Rightarrow>
               (case roc_rows (keys traces1) samples (DictReader fh) [] of
                  Inl e \<Rightarrow> Inl e
                | Inr data \<Rightarrow> Inr (dict_set ''roc'' (JDict (roc_dict chroms samples data)) traces1)))"

subsection \<open>The payload packer\<close>

text \<open>
  \<^verbatim>\<open>json.dumps\<close> with its default settings: separators \<^verbatim>\<open>", "\<close> and \<^verbatim>\<open>": "\<close>,
  \<^verbatim>\<open>ensure_ascii=True\<close>, \<^verbatim>\<open>allow_nan=True\<close>. A character stands for a code point
  below 256; inside a string the quote, the backslash and the characters outside
  \<^verbatim>\<open>' '..'~'\<close> are escaped.
\<close>

definition hex_digit :: "nat \<Rightarrow> char" where
  "hex_digit n = ''0123456789abcdef'' ! (n mod 16)"

definition escape_char :: "char \<Rightarrow> string" where
  "escape_char c =
     (if c = CHR 0x22 then [CHR 0x5C, CHR 0x22]
      else if c = CHR 0x5C then [CHR 0x5C, CHR 0x5C]
      else if c = CHR 0x0A then [CHR 0x5C, CHR ''n'']
      else if c = CHR 0x0D then [CHR 0x5C, CHR ''r'']
      else if c = CHR 0x09 then [CHR 0x5C, CHR ''t'']
      else if c = CHR 0x08 then [CHR 0x5C, CHR ''b'']
      else if c = CHR 0x0C then [CHR 0x5C, CHR ''f'']
      else if 32 \<le> (of_char c :: nat) \<and> (of_char c :: nat) \<le> 126 then [c]
      else [CHR 0x5C] @ ''u00'' @ [hex_digit (of_char c div 16), hex_digit (of_char c)])"

definition encode_str :: "string \<Rightarrow> string" where
  "encode_str s = [CHR 0x22] @ concat (map escape_char s) @ [CHR 0x22]"

fun digits :: "nat \<Rightarrow> string" where
  "digits n = (if n < 10 then [hex_digit n] else digits (n div 10) @ [hex_digit (n mod 10)])"

declare digits.simps [simp del]

definition int_repr :: "int \<Rightarrow> string" where
  "int_repr i = (if i < 0 then ''-'' @ digits (nat (- i)) else digits (nat i))"

definition float_repr :: "pyfloat \<Rightarrow> string" where
  "float_repr f =
     (case f of NaN \<Rightarrow> ''NaN'' | Infinity \<Rightarrow> ''Infinity'' | NegInfinity \<Rightarrow> ''-Infinity''
      | Finite r \<Rightarrow> r)"

fun dumps :: "json \<Rightarrow> string"
  and dumps_list :: "json list \<Rightarrow> string list"
  and dumps_items :: "(string \<times> json) list \<Rightarrow> string list" where
  "dumps JNull = ''null''"
| "dumps (JBool b) = (if b then ''true'' else ''false'')"
| "dumps (JInt i) = int_repr i"
| "dumps (JFloat f) = float_repr f"
| "dumps (JStr s) = encode_str s"
| "dumps (JList xs) = ''['' @ py_join '', '' (dumps_list xs) @ '']''"
| "dumps (JDict kvs) = ''{'' @ py_join '', '' (dumps_items kvs) @ ''}''"
| "dumps_list [] = []"
| "dumps_list (x # xs) = dumps x # dumps_list xs"
| "dumps_items [] = []"
| "dumps_items ((k, v) # kvs) = (encode_str k @ '': '' @ dumps v) # dumps_items kvs"

text \<open>
  Line 158: \<^verbatim>\<open>.encode("utf-8", "ignore").decode("utf-8")\<close>. Every code point of the
  model encodes to UTF-8 and decodes back to itself, so the text is unchanged.
\<close>

definition encode_decode_utf8 :: "string \<Rightarrow> string" where
  "encode_decode_utf8 s = s"

text \<open>
  Lines 158-159: the text handed to the compressor. \<^verbatim>\<open>LZString\<close> is a third-party
  library; its \<^verbatim>\<open>compressToBase64\<close> is a parameter of \<open>compress_data\<close>.
\<close>

definition json_str :: "json \<Rightarrow> string" where
  "json_str data = py_replace ''NaN'' ''null'' (encode_decode_utf8 (dumps data))"

definition compress_data :: "(string \<Rightarrow> string) \<Rightarrow> json \<Rightarrow> string" where
  "compress_data compressToBase64 data = compressToBase64 (json_str data)"

text \<open>
  The normalization as the specification words it: every not-a-number numeric value
  becomes null, and nothing else changes.
\<close>

fun nan_to_null :: "json \<Rightarrow> json"
  and nan_to_null_list :: "json list \<Rightarrow> json list"
  and nan_to_null_items :: "(string \<times> json) list \<Rightarrow> (string \<times> json) list" where
  "nan_to_null (JFloat f) = (if f = NaN then JNull else JFloat f)"
| "nan_to_null (JList xs) = JList (nan_to_null_list xs)"
| "nan_to_null (JDict kvs) = JDict (nan_to_null_items kvs)"
| "nan_to_null JNull = JNull"
| "nan_to_null (JBool b) = JBool b"
| "nan_to_null (JInt i) = JInt i"
| "nan_to_null (JStr s) = JStr s"
| "nan_to_null_list [] = []"
| "nan_to_null_list (x # xs) = nan_to_null x # nan_to_null_list xs"
| "nan_to_null_items [] = []"
| "nan_to_null_items ((k, v) # kvs) = (k, nan_to_null v) # nan_to_null_items kvs"

subsection \<open>Command-line arguments\<close>

text \<open>
  The namespace \<^verbatim>\<open>parse_args\<close> returns. \<^verbatim>\<open>type=int\<close> and \<^verbatim>\<open>type=float\<close> have
  converted the option texts; \<^verbatim>\<open>--gff\<close> and \<^verbatim>\<open>--ped\<close> are \<^verbatim>\<open>None\<close> when not given.
\<close>

record args =
  bed :: string
  roc :: string
  exclude :: string
  sex_chroms :: string
  z_threshold :: real
  distance_threshold :: int
  slop :: int
  gff :: "string option"
  "output" :: string
  min_samples :: int
  ped :: "string option"
  sample_col :: string
  sex_col :: string

text \<open>
  What the user typed, after \<^verbatim>\<open>argparse\<close> has split and converted it: the two
  positionals and, for each option, its value when the option was given.
\<close>

record cmdline =
  given_bed :: string
  given_roc :: string
  given_exclude :: "string option"
  given_sex_chroms :: "string option"
  given_z_threshold :: "real option"
  given_distance_threshold :: "int option"
  given_slop :: "int option"
  given_gff :: "string option"
  given_output :: "string option"
  given_min_samples :: "int option"
  given_ped :: "string option"
  given_sample_col :: "string option"
  given_sex_col :: "string option"

definition default_exclude :: string where
  "default_exclude =
     ''^GL|^hs|^chrEBV$|M$|MT$|^NC|_random$|Un_|^HLA'' @ [CHR 0x5C] @ ''-|_alt$|hap''
       @ [CHR 0x5C] @ ''d+$''"

definition or_default :: "'a option \<Rightarrow> 'a \<Rightarrow> 'a" where
  "or_default given dflt = (case given of None \<Rightarrow> dflt | Some v \<Rightarrow> v)"

definition parse_args :: "cmdline \<Rightarrow> args" where
  "parse_args c =
     \<lparr> bed = given_bed c,
       roc = given_roc c,
       exclude = or_default (given_exclude c) default_exclude,
       sex_chroms = or_default (given_sex_chroms c) ''X,Y'',
       z_threshold = or_default (given_z_threshold c) 3.5,
       distance_threshold = or_default (given_distance_threshold c) 150000,
       slop = or_default (given_slop c) 500000,
       gff = given_gff c,
       output = or_default (given_output c) ''covviz_report.html'',
       min_samples = or_default (given_min_samples c) 8,
       ped = given_ped c,
       sample_col = or_default (given_sample_col c) ''sample_id'',
       sex_col = or_default (given_sex_col c) ''sex'' \<rparr>"

subsection \<open>The driver\<close>

text \<open>
  The collaborators of \<^verbatim>\<open>cli\<close> that live outside \<^verbatim>\<open>covviz.py\<close>: the sibling
  parsers, \<^verbatim>\<open>gzopen\<close>, the compressor, the template (\<^verbatim>\<open>get_template\<close> followed by
  \<^verbatim>\<open>render\<close>) and whether \<^verbatim>\<open>open(path, "w")\<close> succeeds. The parsers read their
  inputs and return a value or raise; they write no file.
\<close>

record env =
  parse_bed :: "string \<Rightarrow> string \<Rightarrow> string option \<Rightarrow> string \<Rightarrow> string \<Rightarrow> string \<Rightarrow> real \<Rightarrow> int \<Rightarrow> int
                 \<Rightarrow> int \<Rightarrow> error + (json dict \<times> string list)"
  parse_gff :: "string option \<Rightarrow> json dict \<Rightarrow> error + json dict"
  gzopen :: "string \<Rightarrow> error + string list list"
  parse_ped :: "string \<Rightarrow> json dict \<Rightarrow> string \<Rightarrow> string \<Rightarrow> error + json dict"
  compressToBase64 :: "string \<Rightarrow> string"
  render :: "string \<Rightarrow> error + string"
  writable :: "string \<Rightarrow> bool"

text \<open>What a run does to the outside: log lines, and the output file opened and printed to.\<close>

datatype event = Log string | Open_w string | Print string string

definition file_events :: "event list \<Rightarrow> event list" where
  "file_events evs = filter (\<lambda>ev. case ev of Log _ \<Rightarrow> False | _ \<Rightarrow> True) evs"

text \<open>\<^verbatim>\<open>"... (%s)" % v\<close>; \<^verbatim>\<open>None\<close> prints as \<^verbatim>\<open>None\<close>.\<close>

definition percent_s :: "string \<Rightarrow> string option \<Rightarrow> string" where
  "percent_s msg v = msg @ '' ('' @ (case v of None \<Rightarrow> ''None'' | Some s \<Rightarrow> s) @ '')''"

text \<open>Lines 193-195: \<^verbatim>\<open>if args.ped:\<close> holds for a string that is given and not empty.\<close>

definition ped_stage :: "env \<Rightarrow> args \<Rightarrow> json dict \<Rightarrow> (error + json dict) \<times> event list" where
  "ped_stage e a traces =
     (case ped a of
        None \<Rightarrow> (Inr traces, [])
      | Some p \<Rightarrow>
          if p = [] then (Inr traces, [])
          else (parse_ped e p traces (sample_col a) (sex_chroms a),
                [Log (percent_s ''parsing ped file'' (Some p))]))"

text \<open>
  Lines 197-202. The file is opened, and so created or truncated, before the payload
  is compressed and the template rendered; \<^verbatim>\<open>print\<close> adds a newline.
\<close>

definition write_report :: "env \<Rightarrow> args \<Rightarrow> json dict \<Rightarrow> (error + unit) \<times> event list" where
  "write_report e a traces =
     (if \<not> writable e (output a) then (Inl (IOError (output a)), [])
      else
        let compressed_json_data = compress_data (compressToBase64 e) (JDict traces)
        in case render e compressed_json_data of
             Inl x \<Rightarrow> (Inl x, [Open_w (output a)])
           | Inr html \<Rightarrow>
               (Inr (), [Open_w (output a), Print (output a) (html @ [CHR 0x0A]),
                         Log ''processing complete'']))"

text \<open>
  Lines 173-202, as a function of the local \<^verbatim>\<open>exclude\<close> computed on line 171.
\<close>

definition cli_body :: "env \<Rightarrow> args \<Rightarrow> string \<Rightarrow> (error + unit) \<times> event list" where
  "cli_body e a exclude_local =
     (let ev1 = [Log (percent_s ''parsing bed file'' (Some (bed a)))]
      in (case parse_bed e (bed a) (exclude a) (ped a) (sample_col a) (sex_col a) (sex_chroms a)
                 (z_threshold a) (distance_threshold a) (slop a) (min_samples a) of
            Inl x \<Rightarrow> (Inl x, ev1)
          | Inr (traces, samples) \<Rightarrow>
              (let ev2 = ev1 @ [Log (percent_s ''parsing gff file'' (gff a))]
               in (case parse_gff e (gff a) traces of
                     Inl x \<Rightarrow> (Inl x, ev2)
                   | Inr traces \<Rightarrow>
                       (let ev3 = ev2 @ [Log (percent_s ''parsing roc file'' (Some (roc a)))]
                        in (case parse_roc (gzopen e) (roc a) traces samples of
                              Inl x \<Rightarrow> (Inl x, ev3)
                            | Inr traces \<Rightarrow>
                                (case ped_stage e a traces of
                                   (Inl x, ev) \<Rightarrow> (Inl x, ev3 @ ev)
                                 | (Inr traces, ev) \<Rightarrow>
                                     (case write_report e a traces of
                                        (r, ev') \<Rightarrow> (r, ev3 @ (ev @ ev'))))))))))"

definition cli :: "env \<Rightarrow> cmdline \<Rightarrow> (error + unit) \<times> event list" where
  "cli e c =
     (let a = parse_args c;
          exclude_local = py_replace '','' ''|'' (py_replace ''~'' '''' (exclude a))
      in cli_body e a exclude_local)"

section \<open>Observations and sample inputs\<close>

subsection \<open>Reading rows and traces\<close>

text \<open>
  Reading a field of a trace, and the trace list of a chromosome under \<^verbatim>\<open>"roc"\<close>.
\<close>

definition trace_field :: "json \<Rightarrow> string \<Rightarrow> json option" where
  "trace_field t k = (case t of JDict kvs \<Rightarrow> dict_get kvs k | _ \<Rightarrow> None)"

definition roc_traces_of :: "json dict \<Rightarrow> string \<Rightarrow> json list option" where
  "roc_traces_of traces chr =
     (case dict_get traces ''roc'' of
        Some (JDict d) \<Rightarrow> (case dict_get d chr of Some (JList trs) \<Rightarrow> Some trs | _ \<Rightarrow> None)
      | _ \<Rightarrow> None)"

text \<open>
  A row that repeats the header; the chromosome of a data row, as line 135 normalizes
  it; a data row whose chromosome is not in a given list.
\<close>

definition repeated_header :: "row \<Rightarrow> bool" where
  "repeated_header row = (dict_get row ''#chrom'' = Some (Some ''#chrom''))"

definition row_chrom :: "row \<Rightarrow> string option" where
  "row_chrom row =
     (case dict_get row ''#chrom'' of
        Some (Some c) \<Rightarrow> if c = ''#chrom'' then None else Some (py_strip ''chr'' c)
      | _ \<Rightarrow> None)"

definition foreign_row :: "string list \<Rightarrow> row \<Rightarrow> bool" where
  "foreign_row chroms row = (case row_chrom row of None \<Rightarrow> False | Some c \<Rightarrow> c \<notin> set chroms)"

text \<open>
  \<^verbatim>\<open>row[k]\<close> for a key that is present, the column \<open>k\<close> of some rows, and the data
  rows of one chromosome. The list \<^verbatim>\<open>data[chr]["x"]\<close> is filled from the column
  \<^verbatim>\<open>cov\<close>, the list of a sample from the column of that name.
\<close>

definition field :: "row \<Rightarrow> string \<Rightarrow> cell" where
  "field row k = (case dict_get row k of None \<Rightarrow> None | Some v \<Rightarrow> v)"

definition column :: "string \<Rightarrow> row list \<Rightarrow> cell list" where
  "column k rows = map (\<lambda>r. field r k) rows"

definition chrom_rows :: "string \<Rightarrow> string list list \<Rightarrow> row list" where
  "chrom_rows chr fh = filter (\<lambda>r. row_chrom r = Some chr) (DictReader fh)"

definition source_column :: "string \<Rightarrow> string" where
  "source_column k = (if k = ''x'' then ''cov'' else k)"

text \<open>
  Two collected tables agree on a set of chromosomes.
\<close>

definition data_agree :: "string set \<Rightarrow> roc_data \<Rightarrow> roc_data \<Rightarrow> bool" where
  "data_agree S d1 d2 = (\<forall>c \<in> S. \<forall>k. data_get d1 c k = data_get d2 c k)"

subsection \<open>A parsing stage raises\<close>

text \<open>
  The four parsing stages of \<^verbatim>\<open>cli\<close>, in the order they run: a stage raises
  \<open>x\<close> after the stages before it have returned.
\<close>

inductive stage_raises :: "env \<Rightarrow> args \<Rightarrow> error \<Rightarrow> bool" where
  bed_raises:
    "parse_bed e (bed a) (exclude a) (ped a) (sample_col a) (sex_col a) (sex_chroms a)
       (z_threshold a) (distance_threshold a) (slop a) (min_samples a) = Inl x
     \<Longrightarrow> stage_raises e a x"
| gff_raises:
    "parse_bed e (bed a) (exclude a) (ped a) (sample_col a) (sex_col a) (sex_chroms a)
       (z_threshold a) (distance_threshold a) (slop a) (min_samples a) = Inr (t1, samples)
     \<Longrightarrow> parse_gff e (gff a) t1 = Inl x
     \<Longrightarrow> stage_raises e a x"
| roc_raises:
    "parse_bed e (bed a) (exclude a) (ped a) (sample_col a) (sex_col a) (sex_chroms a)
       (z_threshold a) (distance_threshold a) (slop a) (min_samples a) = Inr (t1, samples)
     \<Longrightarrow> parse_gff e (gff a) t1 = Inr t2
     \<Longrightarrow> parse_roc (gzopen e) (roc a) t2 samples = Inl x
     \<Longrightarrow> stage_raises e a x"
| ped_raises:
    "parse_bed e (bed a) (exclude a) (ped a) (sample_col a) (sex_col a) (sex_chroms a)
       (z_threshold a) (distance_threshold a) (slop a) (min_samples a) = Inr (t1, samples)
     \<Longrightarrow> parse_gff e (gff a) t1 = Inr t2
     \<Longrightarrow> parse_roc (gzopen e) (roc a) t2 samples = Inr t3
     \<Longrightarrow> ped a = Some p \<Longrightarrow> p \<noteq> []
     \<Longrightarrow> parse_ped e p t3 (sample_col a) (sex_chroms a) = Inl x
     \<Longrightarrow> stage_raises e a x"

subsection \<open>Sample inputs\<close>

text \<open>
  A small coverage-distribution file with a repeated header and a chromosome the bed
  stage did not keep, the trace collection it meets, and the collection that results.
\<close>

definition ex_fieldnames :: "string list" where
  "ex_fieldnames = [''#chrom'', ''cov'', ''s1'', ''s2'']"

definition ex_recs :: "string list list" where
  "ex_recs = [[''chr1'', ''0.0'', ''1.0'', ''0.9''],
              [''#chrom'', ''cov'', ''s1'', ''s2''],
              [''chr1'', ''0.1'', ''0.8'', ''0.7''],
              [''chr2'', ''0.0'', ''1'', ''1'']]"

definition ex_fh :: "string list list" where
  "ex_fh = ex_fieldnames # ex_recs"

definition ex_traces :: "json dict" where
  "ex_traces = [(''chromosomes'', JList [JStr ''1'']), (''1'', JList [])]"

definition ex_trace :: "string \<Rightarrow> string list \<Rightarrow> string list \<Rightarrow> json" where
  "ex_trace sample xs ys =
     JDict [(''x'', JList (map JStr xs)), (''y'', JList (map JStr ys)),
            (''hoverinfo'', JStr ''text''), (''mode'', JStr ''lines''),
            (''text'', JStr sample),
            (''marker'', JDict [(''color'', JStr ''rgba(108,117,125,0.2)'')])]"

definition ex_result :: "json dict" where
  "ex_result = ex_traces @
     [(''roc'', JDict [(''1'', JList [ex_trace ''s1'' [''0.0'', ''0.1''] [''0.8''],
                                      ex_trace ''s2'' [''0.0'', ''0.1''] [''0.7'']])])]"

definition ex_result_s1 :: "json dict" where
  "ex_result_s1 = ex_traces @
     [(''roc'', JDict [(''1'', JList [ex_trace ''s1'' [''0.0'', ''0.1''] [''0.8'']])])]"

text \<open>
  A file with a column named \<^verbatim>\<open>x\<close>, and the same file without that column.
\<close>

definition ex_fh_x :: "string list list" where
  "ex_fh_x = [[''#chrom'', ''cov'', ''x'', ''s1''],
              [''chr1'', ''0.0'', ''1.0'', ''0.9''],
              [''chr1'', ''0.1'', ''0.8'', ''0.7'']]"

definition ex_fh_short :: "string list list" where
  "ex_fh_short = [[''#chrom'', ''cov'', ''s1''],
                  [''chr1'', ''0.0'', ''0.9''],
                  [''chr1'', ''0.1'', ''0.7'']]"

text \<open>
  Collaborators that accept everything, a command line with a distance threshold of
  0 and a slop of -1, and two environments in which one stage raises.
\<close>

definition ex_env :: env where
  "ex_env =
     \<lparr> parse_bed = (\<lambda>b ex p sc sx sch z d s m. Inr (ex_traces, [''s1'', ''s2''])),
       parse_gff = (\<lambda>g t. Inr t),
       gzopen = (\<lambda>p. Inr ex_fh),
       parse_ped = (\<lambda>p t sc sch. Inr t),
       compressToBase64 = (\<lambda>s. s),
       render = (\<lambda>d. Inr (''<html>'' @ d @ ''</html>'')),
       writable = (\<lambda>p. True) \<rparr>"

definition ex_cmdline :: cmdline where
  "ex_cmdline =
     \<lparr> given_bed = ''cov.bed.gz'', given_roc = ''idx.roc'',
       given_exclude = Some ''~^GL,^hs'', given_sex_chroms = None,
       given_z_threshold = None, given_distance_threshold = Some 0,
       given_slop = Some (- 1), given_gff = None, given_output = None,
       given_min_samples = None, given_ped = None, given_sample_col = None,
       given_sex_col = None \<rparr>"

definition ex_bad_roc_env :: env where
  "ex_bad_roc_env = ex_env \<lparr> gzopen := (\<lambda>p. Inl (IOError p)) \<rparr>"

definition ex_bad_bed_env :: env where
  "ex_bad_bed_env = ex_env \<lparr> parse_bed := (\<lambda>b ex p sc sx sch z d s m. Inl (Raised ''bad bed'')) \<rparr>"

text \<open>
  A bed parser that raises on the normalized form of the pattern of the sample command
  line, and an environment in which the gff stage raises.
\<close>

definition ex_picky_bed ::
  "string \<Rightarrow> string \<Rightarrow> string option \<Rightarrow> string \<Rightarrow> string \<Rightarrow> string \<Rightarrow> real \<Rightarrow> int \<Rightarrow> int \<Rightarrow> int
     \<Rightarrow> error + (json dict \<times> string list)" where
  "ex_picky_bed b ex p sc sx sch z d s m =
     (if ex = ''^GL|^hs'' then Inl (Raised ''normalized pattern'')
      else Inr (ex_traces, [''s1'', ''s2'']))"

definition ex_bad_gff_env :: env where
  "ex_bad_gff_env = ex_env \<lparr> parse_gff := (\<lambda>g t. Inl (Raised ''bad gff'')) \<rparr>"

text \<open>
  A payload with a not-a-number value and a string that contains the text
  \<^verbatim>\<open>NaN\<close>.
\<close>

definition ex_nan_data :: json where
  "ex_nan_data = JDict [(''text'', JStr ''NaN_1''), (''y'', JList [JFloat NaN])]"

section \<open>Properties\<close>

subsection \<open>Dictionaries\<close>

lemma dict_get_set: "dict_get (dict_set k v d) k' = (if k' = k then Some v else dict_get d k')"
  by (induction d) (auto simp: dict_get_def)

lemma keys_dict_set:
  "keys (dict_set k v d) = (if k \<in> set (keys d) then keys d else keys d @ [k])"
  by (induction d) (force simp: keys_def)+

lemma dict_get_fold_set:
  "dict_get (fold (\<lambda>c acc. dict_set c (f c) acc) cs acc0) c =
     (if c \<in> set cs then Some (f c) else dict_get acc0 c)"
  by (induction cs arbitrary: acc0) (auto simp: dict_get_set)

lemma dict_get_roc_dict:
  "dict_get (roc_dict chroms samples data) c =
     (if c \<in> set chroms then Some (JList (map (roc_trace data c) samples)) else None)"
  unfolding roc_dict_def by (simp add: dict_get_fold_set) (simp add: dict_get_def)

subsection \<open>What parse_roc returns\<close>

lemma parse_roc_Inr:
  assumes "parse_roc gz path traces samples = Inr traces'"
  obtains fh data where
    "''chromosomes'' \<in> set (keys traces)"
    "gz path = Inr fh"
    "roc_rows (keys (dict_set ''roc'' (JDict []) traces)) samples (DictReader fh) [] = Inr data"
    "traces' = dict_set ''roc'' (JDict (roc_dict (remove1 ''chromosomes'' (keys traces)) samples data))
                 (dict_set ''roc'' (JDict []) traces)"
  using assms unfolding parse_roc_def Let_def
  by (auto split: if_splits sum.splits)

lemma roc_traces_of_parse_roc:
  assumes "parse_roc gz path traces samples = Inr traces'"
  shows "\<exists>fh data. gz path = Inr fh
    \<and> roc_rows (keys (dict_set ''roc'' (JDict []) traces)) samples (DictReader fh) [] = Inr data
    \<and> (\<forall>c. roc_traces_of traces' c =
       (if c \<in> set (remove1 ''chromosomes'' (keys traces))
        then Some (map (roc_trace data c) samples) else None))"
proof -
  from assms obtain fh data where h:
    "gz path = Inr fh"
    "roc_rows (keys (dict_set ''roc'' (JDict []) traces)) samples (DictReader fh) [] = Inr data"
    "traces' = dict_set ''roc'' (JDict (roc_dict (remove1 ''chromosomes'' (keys traces)) samples data))
                 (dict_set ''roc'' (JDict []) traces)"
    by (rule parse_roc_Inr)
  have "roc_traces_of traces' c =
       (if c \<in> set (remove1 ''chromosomes'' (keys traces))
        then Some (map (roc_trace data c) samples) else None)" for c
    by (simp add: h(3) roc_traces_of_def dict_get_set dict_get_roc_dict)
  with h(1,2) show ?thesis by blast
qed

lemma trace_field_text: "trace_field (roc_trace data c s) ''text'' = Some (JStr s)"
  by (simp add: trace_field_def roc_trace_def dict_get_def)

lemma trace_field_x: "trace_field (roc_trace data c s) ''x'' = Some (JList (map cell_json (data_get data c ''x'')))"
  by (simp add: trace_field_def roc_trace_def dict_get_def)

lemma trace_field_y: "trace_field (roc_trace data c s) ''y'' = Some (JList (map cell_json (drop 1 (data_get data c s))))"
  by (simp add: trace_field_def roc_trace_def dict_get_def)

lemma length_filter_eq_distinct:
  "distinct xs \<Longrightarrow> x \<in> set xs \<Longrightarrow> length (filter (\<lambda>y. y = x) xs) = 1"
proof (induction xs)
  case Nil
  then show ?case by simp
next
  case (Cons a xs)
  show ?case
  proof (cases "a = x")
    case True
    with Cons.prems have "filter (\<lambda>y. y = x) xs = []"
      by (auto simp: filter_empty_conv)
    with True show ?thesis by simp
  next
    case False
    with Cons show ?thesis by simp
  qed
qed

lemma ex_parse_roc: "parse_roc (\<lambda>p. Inr ex_fh) ''idx.roc'' ex_traces [''s1'', ''s2''] = Inr ex_result"
  by code_simp

text \<open>
  C6. When \<^verbatim>\<open>parse_roc\<close> returns, every chromosome of the established set (the keys
  of the incoming collection other than \<^verbatim>\<open>"chromosomes"\<close>) has a trace list under
  \<^verbatim>\<open>"roc"\<close> whose traces carry, in order, the sample names as their \<^verbatim>\<open>text\<close>: one
  trace per entry of \<^verbatim>\<open>samples\<close>, and so exactly one per sample when the sample names
  are distinct.
\<close>

theorem parse_roc_one_trace_per_sample:
  assumes "parse_roc gz path traces samples = Inr traces'"
    and "chr \<in> set (remove1 ''chromosomes'' (keys traces))"
  shows "\<exists>trs. roc_traces_of traces' chr = Some trs
           \<and> map (\<lambda>t. trace_field t ''text'') trs = map (\<lambda>s. Some (JStr s)) samples
           \<and> (distinct samples \<longrightarrow>
                (\<forall>s \<in> set samples. length (filter (\<lambda>t. trace_field t ''text'' = Some (JStr s)) trs) = 1))"
proof -
  from roc_traces_of_parse_roc [OF assms(1)] obtain data where
    r: "\<And>c. roc_traces_of traces' c =
       (if c \<in> set (remove1 ''chromosomes'' (keys traces))
        then Some (map (roc_trace data c) samples) else None)"
    by blast
  let ?trs = "map (roc_trace data chr) samples"
  have 1: "roc_traces_of traces' chr = Some ?trs" using r assms(2) by simp
  have 2: "map (\<lambda>t. trace_field t ''text'') ?trs = map (\<lambda>s. Some (JStr s)) samples"
    by (simp add: trace_field_text)
  have 3: "length (filter (\<lambda>t. trace_field t ''text'' = Some (JStr s)) ?trs) = 1"
    if "distinct samples" "s \<in> set samples" for s
  proof -
    have "length (filter (\<lambda>t. trace_field t ''text'' = Some (JStr s)) ?trs)
          = length (filter (\<lambda>s'. s' = s) samples)"
      by (simp add: filter_map comp_def trace_field_text)
    also have "\<dots> = 1" using that by (rule length_filter_eq_distinct)
    finally show ?thesis .
  qed
  from 1 2 3 show ?thesis by blast
qed

theorem parse_roc_one_trace_per_sample_witness:
  "parse_roc (\<lambda>p. Inr ex_fh) ''idx.roc'' ex_traces [''s1'', ''s2''] = Inr ex_result
     \<and> ''1'' \<in> set (remove1 ''chromosomes'' (keys ex_traces))
     \<and> (\<exists>trs. roc_traces_of ex_result ''1'' = Some trs
           \<and> map (\<lambda>t. trace_field t ''text'') trs = map (\<lambda>s. Some (JStr s)) [''s1'', ''s2'']
           \<and> (distinct [''s1'', ''s2''] \<longrightarrow>
                (\<forall>s \<in> set [''s1'', ''s2'']. length (filter (\<lambda>t. trace_field t ''text'' = Some (JStr s)) trs) = 1)))"
proof -
  have h2: "''1'' \<in> set (remove1 ''chromosomes'' (keys ex_traces))"
    by code_simp
  from parse_roc_one_trace_per_sample [OF ex_parse_roc h2] ex_parse_roc h2 show ?thesis by blast
qed

text \<open>
  C7. The claim as stated fails for a collection that already has the key
  \<^verbatim>\<open>"roc"\<close>: line 126 overwrites its value.
\<close>

theorem parse_roc_overwrites_roc_key:
  "parse_roc (\<lambda>p. Inr []) ''idx.roc'' [(''chromosomes'', JList []), (''roc'', JInt 1)] []
     = Inr [(''chromosomes'', JList []), (''roc'', JDict [(''roc'', JList [])])]
   \<and> dict_get [(''chromosomes'', JList []), (''roc'', JInt 1)] ''roc'' = Some (JInt 1)
   \<and> dict_get [(''chromosomes'', JList []), (''roc'', JDict [(''roc'', JList [])])] ''roc''
        \<noteq> Some (JInt 1)"
  by code_simp

text \<open>
  C7, amended. When \<^verbatim>\<open>parse_roc\<close> returns, every key other than \<^verbatim>\<open>"roc"\<close> maps
  to the value it had, the keys keep their order, and \<^verbatim>\<open>"roc"\<close> is the only key
  that is set: appended when it was absent, overwritten in place when it was present.
\<close>

theorem parse_roc_frame:
  assumes "parse_roc gz path traces samples = Inr traces'"
  shows "(\<forall>k. k \<noteq> ''roc'' \<longrightarrow> dict_get traces' k = dict_get traces k)
       \<and> keys traces' = (if ''roc'' \<in> set (keys traces) then keys traces else keys traces @ [''roc''])
       \<and> (\<exists>d. dict_get traces' ''roc'' = Some (JDict d))"
proof -
  from assms obtain fh data where
    t: "traces' = dict_set ''roc'' (JDict (roc_dict (remove1 ''chromosomes'' (keys traces)) samples data))
                 (dict_set ''roc'' (JDict []) traces)"
    by (rule parse_roc_Inr)
  show ?thesis
    by (auto simp: t dict_get_set keys_dict_set)
qed

theorem parse_roc_frame_witness:
  "parse_roc (\<lambda>p. Inr ex_fh) ''idx.roc'' ex_traces [''s1'', ''s2''] = Inr ex_result
   \<and> dict_get ex_result ''chromosomes'' = dict_get ex_traces ''chromosomes''
   \<and> dict_get ex_result ''1'' = dict_get ex_traces ''1''
   \<and> keys ex_result = keys ex_traces @ [''roc'']
   \<and> (\<exists>d. dict_get ex_result ''roc'' = Some (JDict d))"
proof -
  have n: "''roc'' \<notin> set (keys ex_traces)" by code_simp
  from parse_roc_frame [OF ex_parse_roc] n ex_parse_roc show ?thesis by simp
qed

subsection \<open>The rows that reach the traces\<close>

lemma data_get_append:
  "data_get (data_append chr k v d) c k' =
     data_get d c k' @ (if c = chr \<and> k' = k then [v] else [])"
  by (simp add: data_get_def data_append_def dict_default_def Let_def dict_get_set)

lemma data_get_empty: "data_get [] c k = []"
  by (simp add: data_get_def dict_default_def dict_get_def)

lemma data_agree_append:
  "data_agree S d1 d2 \<Longrightarrow> data_agree S (data_append chr k v d1) (data_append chr k v d2)"
  by (simp add: data_agree_def data_get_append)

lemma data_agree_append_other:
  "chr \<notin> S \<Longrightarrow> data_agree S (data_append chr k v d) d"
  by (auto simp: data_agree_def data_get_append)

lemma data_agree_trans:
  "data_agree S d1 d2 \<Longrightarrow> data_agree S d2 d3 \<Longrightarrow> data_agree S d1 d3"
  by (simp add: data_agree_def)

lemma data_agree_refl: "data_agree S d d"
  by (simp add: data_agree_def)

lemma append_samples_agree:
  "append_samples chr r ss d1 = Inr d1' \<Longrightarrow> data_agree S d1 d2 \<Longrightarrow>
     \<exists>d2'. append_samples chr r ss d2 = Inr d2' \<and> data_agree S d1' d2'"
proof (induction ss arbitrary: d1 d2)
  case Nil
  then show ?case by simp
next
  case (Cons s ss)
  from Cons.prems(1) obtain v where v: "dict_get r s = Some v"
    and rest: "append_samples chr r ss (data_append chr s v d1) = Inr d1'"
    by (auto split: option.splits)
  from Cons.prems(2) have "data_agree S (data_append chr s v d1) (data_append chr s v d2)"
    by (rule data_agree_append)
  from Cons.IH [OF rest this] v show ?case by simp
qed

lemma append_samples_other:
  "append_samples chr r ss d = Inr d' \<Longrightarrow> chr \<notin> S \<Longrightarrow> data_agree S d' d"
proof (induction ss arbitrary: d)
  case Nil
  then show ?case by (simp add: data_agree_refl)
next
  case (Cons s ss)
  from Cons.prems(1) obtain v where v: "dict_get r s = Some v"
    and rest: "append_samples chr r ss (data_append chr s v d) = Inr d'"
    by (auto split: option.splits)
  from Cons.IH [OF rest Cons.prems(2)] have "data_agree S d' (data_append chr s v d)" .
  moreover have "data_agree S (data_append chr s v d) d"
    using Cons.prems(2) by (rule data_agree_append_other)
  ultimately show ?case by (rule data_agree_trans)
qed

lemma roc_row_header: "repeated_header r \<Longrightarrow> roc_row tk ss r d = Inr d"
  by (simp add: repeated_header_def roc_row_def)

text \<open>
  A row that is processed without an exception is a repeated header, a row of a
  chromosome that is not a key of the collection, or a row that is collected.
\<close>

lemma roc_row_Inr_cases:
  assumes "roc_row tk ss r d = Inr d'"
  obtains (header) "repeated_header r" "row_chrom r = None" "d' = d"
  | (skipped) c where "row_chrom r = Some c" "c \<notin> set tk" "d' = d"
  | (kept) c v where "row_chrom r = Some c" "c \<in> set tk" "dict_get r ''cov'' = Some v"
      "append_samples c r ss (data_append c ''x'' v d) = Inr d'"
  using assms unfolding roc_row_def row_chrom_def repeated_header_def Let_def
  by (auto split: option.splits if_splits)

lemma roc_row_agree:
  assumes "roc_row tk ss r d1 = Inr d1'" and "data_agree S d1 d2"
  shows "\<exists>d2'. roc_row tk ss r d2 = Inr d2' \<and> data_agree S d1' d2'"
  using assms(1)
proof (cases rule: roc_row_Inr_cases)
  case header
  then show ?thesis using assms(2) by (simp add: roc_row_header)
next
  case (skipped c)
  then show ?thesis using assms(2)
    by (auto simp: roc_row_def row_chrom_def Let_def split: option.splits if_splits)
next
  case (kept c v)
  from assms(2) have "data_agree S (data_append c ''x'' v d1) (data_append c ''x'' v d2)"
    by (rule data_agree_append)
  from append_samples_agree [OF kept(4) this] obtain d2' where
    "append_samples c r ss (data_append c ''x'' v d2) = Inr d2'" "data_agree S d1' d2'"
    by blast
  with kept(1-3) show ?thesis
    by (auto simp: roc_row_def row_chrom_def Let_def split: option.splits if_splits)
qed

lemma roc_row_other:
  assumes "roc_row tk ss r d = Inr d'" and "row_chrom r = Some c" and "c \<notin> S"
  shows "data_agree S d' d"
  using assms(1)
proof (cases rule: roc_row_Inr_cases)
  case header
  then show ?thesis by (simp add: data_agree_refl)
next
  case (skipped c')
  then show ?thesis by (simp add: data_agree_refl)
next
  case (kept c' v)
  with assms(2) have [simp]: "c' = c" by simp
  from kept(4) assms(3) have "data_agree S d' (data_append c ''x'' v d)"
    by (auto intro: append_samples_other)
  moreover have "data_agree S (data_append c ''x'' v d) d"
    using assms(3) by (rule data_agree_append_other)
  ultimately show ?thesis by (rule data_agree_trans)
qed

lemma roc_rows_filter_header:
  "roc_rows tk ss (filter (\<lambda>r. \<not> repeated_header r) rows) d = roc_rows tk ss rows d"
  by (induction rows arbitrary: d) (auto simp: roc_row_header split: sum.splits)

lemma DictReader_filter:
  "DictReader (h # filter (\<lambda>r. P (dict_row h r)) recs) = filter P (DictReader (h # recs))"
  by (induction recs) (simp_all add: DictReader_def)

text \<open>
  C3. \<^verbatim>\<open>parse_roc\<close> returns the same result, or raises the same exception, on a
  file and on that file with every row removed whose \<^verbatim>\<open>#chrom\<close> field is the header
  token \<^verbatim>\<open>"#chrom"\<close>: such rows are skipped and contribute no point to any trace.
\<close>

theorem parse_roc_skips_repeated_headers:
  assumes "gz path = Inr (fieldnames # recs)"
    and "gz' path =
           Inr (fieldnames # filter (\<lambda>r. \<not> repeated_header (dict_row fieldnames r)) recs)"
  shows "parse_roc gz path traces samples = parse_roc gz' path traces samples"
  by (simp add: parse_roc_def Let_def assms roc_rows_filter_header
        DictReader_filter [where P = "\<lambda>r. \<not> repeated_header r"])

theorem parse_roc_skips_repeated_headers_witness:
  "filter (\<lambda>r. \<not> repeated_header (dict_row ex_fieldnames r)) ex_recs
     = [[''chr1'', ''0.0'', ''1.0'', ''0.9''], [''chr1'', ''0.1'', ''0.8'', ''0.7''],
        [''chr2'', ''0.0'', ''1'', ''1'']]
   \<and> parse_roc (\<lambda>p. Inr (ex_fieldnames # ex_recs)) ''idx.roc'' ex_traces [''s1'', ''s2'']
     = parse_roc (\<lambda>p. Inr (ex_fieldnames #
          [[''chr1'', ''0.0'', ''1.0'', ''0.9''], [''chr1'', ''0.1'', ''0.8'', ''0.7''],
           [''chr2'', ''0.0'', ''1'', ''1'']])) ''idx.roc'' ex_traces [''s1'', ''s2'']"
proof -
  have f: "filter (\<lambda>r. \<not> repeated_header (dict_row ex_fieldnames r)) ex_recs
     = [[''chr1'', ''0.0'', ''1.0'', ''0.9''], [''chr1'', ''0.1'', ''0.8'', ''0.7''],
        [''chr2'', ''0.0'', ''1'', ''1'']]"
    by code_simp
  from parse_roc_skips_repeated_headers
    [of "\<lambda>p. Inr (ex_fieldnames # ex_recs)" "''idx.roc''" ex_fieldnames ex_recs
        "\<lambda>p. Inr (ex_fieldnames # filter (\<lambda>r. \<not> repeated_header (dict_row ex_fieldnames r)) ex_recs)"
        ex_traces "[''s1'', ''s2'']"]
  show ?thesis by (simp add: f)
qed

lemma roc_rows_filter_foreign:
  assumes "roc_rows tk ss rows d1 = Inr d1'" and "data_agree (set chroms) d1 d2"
  shows "\<exists>d2'. roc_rows tk ss (filter (\<lambda>r. \<not> foreign_row chroms r) rows) d2 = Inr d2'
           \<and> data_agree (set chroms) d1' d2'"
  using assms
proof (induction rows arbitrary: d1 d2)
  case Nil
  then show ?case by simp
next
  case (Cons r rows)
  from Cons.prems(1) obtain dm where step: "roc_row tk ss r d1 = Inr dm"
    and rest: "roc_rows tk ss rows dm = Inr d1'"
    by (auto split: sum.splits)
  show ?case
  proof (cases "foreign_row chroms r")
    case True
    then obtain c where "row_chrom r = Some c" "c \<notin> set chroms"
      by (auto simp: foreign_row_def split: option.splits)
    with step have "data_agree (set chroms) dm d1" by (rule roc_row_other)
    from this Cons.prems(2) have "data_agree (set chroms) dm d2" by (rule data_agree_trans)
    from Cons.IH [OF rest this] True show ?thesis by simp
  next
    case False
    from roc_row_agree [OF step Cons.prems(2)] obtain dm2 where
      s2: "roc_row tk ss r d2 = Inr dm2" and a2: "data_agree (set chroms) dm dm2" by blast
    from Cons.IH [OF rest a2] False s2 show ?thesis by simp
  qed
qed

lemma roc_trace_agree:
  "data_agree S d1 d2 \<Longrightarrow> c \<in> S \<Longrightarrow> roc_trace d1 c = roc_trace d2 c"
  by (rule ext) (simp add: roc_trace_def data_agree_def)

lemma roc_dict_agree:
  assumes "data_agree (set chroms) d1 d2"
  shows "roc_dict chroms ss d1 = roc_dict chroms ss d2"
proof -
  have "(\<lambda>roc. dict_set c (JList (map (roc_trace d1 c) ss)) roc) =
        (\<lambda>roc. dict_set c (JList (map (roc_trace d2 c) ss)) roc)" if "c \<in> set chroms" for c
    using that by (simp add: roc_trace_agree [OF assms])
  then show ?thesis
    unfolding roc_dict_def by (intro fold_cong) simp_all
qed

text \<open>
  C5. When \<^verbatim>\<open>parse_roc\<close> returns a collection, it returns the same collection on
  the file with every data row removed whose normalized chromosome is not in the
  established set: such rows contribute no point to any output trace.
\<close>

theorem parse_roc_ignores_unknown_chromosomes:
  assumes "parse_roc gz path traces samples = Inr traces'"
    and "gz path = Inr (fieldnames # recs)"
    and "gz' path =
           Inr (fieldnames #
                filter (\<lambda>r. \<not> foreign_row (remove1 ''chromosomes'' (keys traces))
                                 (dict_row fieldnames r)) recs)"
  shows "parse_roc gz' path traces samples = Inr traces'"
proof -
  let ?chroms = "remove1 ''chromosomes'' (keys traces)"
  let ?tk = "keys (dict_set ''roc'' (JDict []) traces)"
  from assms(1,2) obtain data where
    c: "''chromosomes'' \<in> set (keys traces)"
    and d: "roc_rows ?tk samples (DictReader (fieldnames # recs)) [] = Inr data"
    and t: "traces' = dict_set ''roc'' (JDict (roc_dict ?chroms samples data))
                        (dict_set ''roc'' (JDict []) traces)"
    unfolding parse_roc_def Let_def by (auto split: if_splits sum.splits)
  from roc_rows_filter_foreign [OF d data_agree_refl] obtain data' where
    d': "roc_rows ?tk samples
           (filter (\<lambda>r. \<not> foreign_row ?chroms r) (DictReader (fieldnames # recs))) [] = Inr data'"
    and a: "data_agree (set ?chroms) data data'" by blast
  from a have "roc_dict ?chroms samples data = roc_dict ?chroms samples data'"
    by (rule roc_dict_agree)
  with c d' t show ?thesis
    by (simp add: parse_roc_def assms(3)
          DictReader_filter [where P = "\<lambda>r. \<not> foreign_row ?chroms r"])
qed

theorem parse_roc_ignores_unknown_chromosomes_witness:
  "parse_roc (\<lambda>p. Inr (ex_fieldnames # ex_recs)) ''idx.roc'' ex_traces [''s1'', ''s2''] = Inr ex_result
   \<and> filter (\<lambda>r. \<not> foreign_row (remove1 ''chromosomes'' (keys ex_traces))
                      (dict_row ex_fieldnames r)) ex_recs
     = [[''chr1'', ''0.0'', ''1.0'', ''0.9''], [''#chrom'', ''cov'', ''s1'', ''s2''],
        [''chr1'', ''0.1'', ''0.8'', ''0.7'']]
   \<and> parse_roc (\<lambda>p. Inr (ex_fieldnames #
          [[''chr1'', ''0.0'', ''1.0'', ''0.9''], [''#chrom'', ''cov'', ''s1'', ''s2''],
           [''chr1'', ''0.1'', ''0.8'', ''0.7'']])) ''idx.roc'' ex_traces [''s1'', ''s2'']
     = Inr ex_result"
proof -
  have p: "parse_roc (\<lambda>p. Inr (ex_fieldnames # ex_recs)) ''idx.roc'' ex_traces [''s1'', ''s2'']
             = Inr ex_result"
    using ex_parse_roc by (simp add: ex_fh_def)
  have f: "filter (\<lambda>r. \<not> foreign_row (remove1 ''chromosomes'' (keys ex_traces))
                      (dict_row ex_fieldnames r)) ex_recs
     = [[''chr1'', ''0.0'', ''1.0'', ''0.9''], [''#chrom'', ''cov'', ''s1'', ''s2''],
        [''chr1'', ''0.1'', ''0.8'', ''0.7'']]"
    by code_simp
  from parse_roc_ignores_unknown_chromosomes
    [of "\<lambda>p. Inr (ex_fieldnames # ex_recs)" "''idx.roc''" ex_traces "[''s1'', ''s2'']" ex_result
        ex_fieldnames ex_recs
        "\<lambda>p. Inr (ex_fieldnames # filter (\<lambda>r. \<not> foreign_row (remove1 ''chromosomes'' (keys ex_traces))
                      (dict_row ex_fieldnames r)) ex_recs)", OF p]
  have "parse_roc (\<lambda>p. Inr (ex_fieldnames # filter (\<lambda>r. \<not> foreign_row (remove1 ''chromosomes'' (keys ex_traces))
                      (dict_row ex_fieldnames r)) ex_recs)) ''idx.roc'' ex_traces [''s1'', ''s2''] = Inr ex_result"
    by simp
  with p f show ?thesis by simp
qed

lemma append_samples_data:
  "distinct ss \<Longrightarrow> append_samples chr r ss d = Inr d' \<Longrightarrow>
     data_get d' c k = data_get d c k @ (if c = chr \<and> k \<in> set ss then [field r k] else [])"
proof (induction ss arbitrary: d)
  case Nil
  then show ?case by simp
next
  case (Cons s ss)
  from Cons.prems(2) obtain v where v: "dict_get r s = Some v"
    and rest: "append_samples chr r ss (data_append chr s v d) = Inr d'"
    by (auto split: option.splits)
  from Cons.prems(1) have ds: "distinct ss" and ns: "s \<notin> set ss" by simp_all
  from Cons.IH [OF ds rest] v ns show ?case
    by (auto simp: data_get_append field_def)
qed

lemma roc_row_data:
  assumes "roc_row tk ss r d = Inr d'" and "distinct ss" and "''x'' \<notin> set ss"
  shows "data_get d' c k =
           data_get d c k @
             (if row_chrom r = Some c \<and> c \<in> set tk \<and> (k = ''x'' \<or> k \<in> set ss)
              then [field r (source_column k)] else [])"
  using assms(1)
proof (cases rule: roc_row_Inr_cases)
  case header
  then show ?thesis by simp
next
  case (skipped c')
  then show ?thesis by auto
next
  case (kept c' v)
  from append_samples_data [OF assms(2) kept(4), of c k] kept(1-3) assms(3)
  show ?thesis
    by (auto simp: data_get_append field_def source_column_def)
qed

lemma roc_rows_data:
  assumes "roc_rows tk ss rows d = Inr d'" and "distinct ss" and "''x'' \<notin> set ss"
  shows "data_get d' c k =
           data_get d c k @
             (if c \<in> set tk \<and> (k = ''x'' \<or> k \<in> set ss)
              then column (source_column k) (filter (\<lambda>r. row_chrom r = Some c) rows) else [])"
  using assms(1)
proof (induction rows arbitrary: d)
  case Nil
  then show ?case by (simp add: column_def)
next
  case (Cons r rows)
  from Cons.prems obtain dm where step: "roc_row tk ss r d = Inr dm"
    and rest: "roc_rows tk ss rows dm = Inr d'"
    by (auto split: sum.splits)
  from Cons.IH [OF rest] roc_row_data [OF step assms(2,3), of c k]
  show ?case by (auto simp: column_def)
qed

text \<open>
  C9. The claim as stated fails when a sample is named \<^verbatim>\<open>x\<close>: the list
  \<^verbatim>\<open>data[chr]["x"]\<close> then collects the \<^verbatim>\<open>cov\<close> field and that sample's field of
  every row, so the \<^verbatim>\<open>x\<close> of a trace is not the collected \<^verbatim>\<open>cov\<close> column and is
  three elements longer than the \<^verbatim>\<open>y\<close> of the other sample.
\<close>

theorem parse_roc_sample_named_x:
  "parse_roc (\<lambda>p. Inr ex_fh_x) ''idx.roc'' ex_traces [''x'', ''s1'']
     = Inr (ex_traces @
         [(''roc'', JDict [(''1'', JList
              [ex_trace ''x'' [''0.0'', ''1.0'', ''0.1'', ''0.8''] [''1.0'', ''0.1'', ''0.8''],
               ex_trace ''s1'' [''0.0'', ''1.0'', ''0.1'', ''0.8''] [''0.7'']])])])
   \<and> column ''cov'' (chrom_rows ''1'' ex_fh_x) = [Some ''0.0'', Some ''0.1'']
   \<and> drop 1 (column ''x'' (chrom_rows ''1'' ex_fh_x)) = [Some ''0.8'']"
  by code_simp

text \<open>
  C9, amended. When the sample names are distinct and none of them is \<^verbatim>\<open>x\<close>, the
  trace of a sample on a chromosome of the established set has as \<^verbatim>\<open>x\<close> the
  \<^verbatim>\<open>cov\<close> field of every data row of that chromosome and as \<^verbatim>\<open>y\<close> the sample's
  field of these rows without the first; when at least one row matched, \<^verbatim>\<open>x\<close> is
  exactly one element longer than \<^verbatim>\<open>y\<close>.
\<close>

theorem parse_roc_trace_points:
  assumes "parse_roc gz path traces samples = Inr traces'"
    and "gz path = Inr fh"
    and "chr \<in> set (remove1 ''chromosomes'' (keys traces))"
    and "distinct samples" and "''x'' \<notin> set samples"
    and "i < length samples"
  shows "\<exists>trs xs ys. roc_traces_of traces' chr = Some trs
           \<and> trace_field (trs ! i) ''x'' = Some (JList (map cell_json xs))
           \<and> trace_field (trs ! i) ''y'' = Some (JList (map cell_json ys))
           \<and> xs = column ''cov'' (chrom_rows chr fh)
           \<and> ys = drop 1 (column (samples ! i) (chrom_rows chr fh))
           \<and> (chrom_rows chr fh \<noteq> [] \<longrightarrow> length xs = length ys + 1)"
proof -
  let ?tk = "keys (dict_set ''roc'' (JDict []) traces)"
  from roc_traces_of_parse_roc [OF assms(1)] assms(2) obtain data where
    d: "roc_rows ?tk samples (DictReader fh) [] = Inr data"
    and r: "\<And>c. roc_traces_of traces' c =
       (if c \<in> set (remove1 ''chromosomes'' (keys traces))
        then Some (map (roc_trace data c) samples) else None)"
    by auto
  have "chr \<in> set (keys traces)"
    using assms(3) set_remove1_subset [of "''chromosomes''" "keys traces"] by blast
  then have tk: "chr \<in> set ?tk"
    by (simp add: keys_dict_set)
  have si: "samples ! i \<in> set samples" using assms(6) by simp
  then have nx: "samples ! i \<noteq> ''x''" using assms(5) by auto
  have x: "data_get data chr ''x'' = column ''cov'' (chrom_rows chr fh)"
    using roc_rows_data [OF d assms(4,5), of chr "''x''"] tk
    by (simp add: data_get_empty chrom_rows_def source_column_def)
  have y: "data_get data chr (samples ! i) = column (samples ! i) (chrom_rows chr fh)"
    using roc_rows_data [OF d assms(4,5), of chr "samples ! i"] tk si nx
    by (simp add: data_get_empty chrom_rows_def source_column_def)
  have 1: "roc_traces_of traces' chr = Some (map (roc_trace data chr) samples)"
    using r assms(3) by simp
  have 2: "map (roc_trace data chr) samples ! i = roc_trace data chr (samples ! i)"
    using assms(6) by simp
  have 3: "chrom_rows chr fh \<noteq> [] \<longrightarrow>
        length (column ''cov'' (chrom_rows chr fh))
          = length (drop 1 (column (samples ! i) (chrom_rows chr fh))) + 1"
    by (cases "chrom_rows chr fh") (simp_all add: column_def)
  show ?thesis
    apply (rule exI [of _ "map (roc_trace data chr) samples"])
    apply (rule exI [of _ "column ''cov'' (chrom_rows chr fh)"])
    apply (rule exI [of _ "drop 1 (column (samples ! i) (chrom_rows chr fh))"])
    using 1 2 3 x y by (simp add: trace_field_x trace_field_y)
qed

theorem parse_roc_trace_points_witness:
  "parse_roc (\<lambda>p. Inr ex_fh) ''idx.roc'' ex_traces [''s1'', ''s2''] = Inr ex_result
   \<and> ''1'' \<in> set (remove1 ''chromosomes'' (keys ex_traces))
   \<and> distinct [''s1'', ''s2''] \<and> ''x'' \<notin> set [''s1'', ''s2''] \<and> (1::nat) < length [''s1'', ''s2'']
   \<and> chrom_rows ''1'' ex_fh \<noteq> []
   \<and> (\<exists>trs xs ys. roc_traces_of ex_result ''1'' = Some trs
           \<and> trace_field (trs ! 1) ''x'' = Some (JList (map cell_json xs))
           \<and> trace_field (trs ! 1) ''y'' = Some (JList (map cell_json ys))
           \<and> xs = [Some ''0.0'', Some ''0.1'']
           \<and> ys = [Some ''0.7'']
           \<and> length xs = length ys + 1)"
proof -
  have h3: "''1'' \<in> set (remove1 ''chromosomes'' (keys ex_traces))" by code_simp
  have h4: "distinct [''s1'', ''s2'']" by simp
  have h5: "''x'' \<notin> set [''s1'', ''s2'']" by simp
  have h6: "(1::nat) < length [''s1'', ''s2'']" by simp
  have r: "chrom_rows ''1'' ex_fh \<noteq> []" by code_simp
  have x: "column ''cov'' (chrom_rows ''1'' ex_fh) = [Some ''0.0'', Some ''0.1'']" by code_simp
  have y: "drop 1 (column ([''s1'', ''s2''] ! 1) (chrom_rows ''1'' ex_fh)) = [Some ''0.7'']"
    by code_simp
  from parse_roc_trace_points [OF ex_parse_roc refl h3 h4 h5 h6] r
  have "\<exists>trs xs ys. roc_traces_of ex_result ''1'' = Some trs
           \<and> trace_field (trs ! 1) ''x'' = Some (JList (map cell_json xs))
           \<and> trace_field (trs ! 1) ''y'' = Some (JList (map cell_json ys))
           \<and> xs = [Some ''0.0'', Some ''0.1'']
           \<and> ys = [Some ''0.7'']
           \<and> length xs = length ys + 1"
    unfolding x y by blast
  with ex_parse_roc h3 h4 h5 h6 r show ?thesis by blast
qed

subsection \<open>Sample columns\<close>

lemma append_samples_cong:
  "(\<forall>k \<in> set ss. dict_get r k = dict_get r' k) \<Longrightarrow>
     append_samples chr r ss d = append_samples chr r' ss d"
  by (induction ss arbitrary: d) (auto split: option.splits)

lemma roc_row_cong:
  assumes "\<forall>k \<in> insert ''#chrom'' (insert ''cov'' (set ss)). dict_get r k = dict_get r' k"
  shows "roc_row tk ss r d = roc_row tk ss r' d"
proof -
  from assms have a: "dict_get r ''#chrom'' = dict_get r' ''#chrom''"
    and b: "dict_get r ''cov'' = dict_get r' ''cov''"
    and c: "\<forall>k \<in> set ss. dict_get r k = dict_get r' k" by simp_all
  show ?thesis
    unfolding roc_row_def a b Let_def
    by (simp add: append_samples_cong [OF c] split: option.splits)
qed

lemma roc_rows_cong:
  "list_all2 (\<lambda>r r'. \<forall>k \<in> insert ''#chrom'' (insert ''cov'' (set ss)). dict_get r k = dict_get r' k)
      rows rows' \<Longrightarrow> roc_rows tk ss rows d = roc_rows tk ss rows' d"
proof (induction rows rows' arbitrary: d rule: list_all2_induct)
  case Nil
  then show ?case by simp
next
  case (Cons r rows r' rows')
  from Cons(1) have "roc_row tk ss r d = roc_row tk ss r' d" by (rule roc_row_cong)
  with Cons.IH show ?case by (simp split: sum.splits)
qed

lemma dict_get_None_keys: "dict_get d k = None \<longleftrightarrow> k \<notin> set (keys d)"
  by (simp add: dict_get_def keys_def map_of_eq_None_iff)

lemma set_keys_dict_set: "set (keys (dict_set k v d)) = insert k (set (keys d))"
  by (auto simp: keys_dict_set)

lemma set_keys_fold_dict_set:
  "set (keys (fold (\<lambda>(k, v) d. dict_set k v d) kvs d)) = set (keys d) \<union> fst ` set kvs"
  by (induction kvs arbitrary: d) (auto simp: set_keys_dict_set)

lemma set_keys_dict_of: "set (keys (dict_of kvs)) = fst ` set kvs"
proof -
  have "set (keys ([] :: 'a dict)) = {}" by (simp add: keys_def)
  then show ?thesis
    unfolding dict_of_def set_keys_fold_dict_set by simp
qed

lemma set_keys_dict_row: "set (keys (dict_row fieldnames r)) = set fieldnames"
proof -
  let ?vs = "map Some r @ replicate (length fieldnames - length r) None"
  have "length fieldnames \<le> length ?vs" by simp
  then have "map fst (zip fieldnames ?vs) = fieldnames"
    by (simp add: map_fst_zip_take)
  then have "fst ` set (zip fieldnames ?vs) = set fieldnames"
    by (metis set_map)
  then show ?thesis
    unfolding dict_row_def set_keys_dict_of by simp
qed

lemma dict_row_get_None: "dict_get (dict_row fieldnames r) k = None \<longleftrightarrow> k \<notin> set fieldnames"
  by (simp add: dict_get_None_keys set_keys_dict_row)

lemma DictReader_rows:
  "r \<in> set (DictReader (fieldnames # recs)) \<Longrightarrow> \<exists>v. r = dict_row fieldnames v"
  by (auto simp: DictReader_def)

lemma append_samples_KeyError:
  "\<forall>s' \<in> set ss1. dict_get r s' \<noteq> None \<Longrightarrow> dict_get r s = None \<Longrightarrow>
     append_samples chr r (ss1 @ s # ss2) d = Inl (KeyError s)"
  by (induction ss1 arbitrary: d) (auto split: option.splits)

lemma roc_rows_KeyError:
  assumes "\<forall>r \<in> set rows. dict_get r ''#chrom'' \<noteq> None \<and> dict_get r ''#chrom'' \<noteq> Some None
             \<and> dict_get r ''cov'' \<noteq> None \<and> (\<forall>s' \<in> set ss1. dict_get r s' \<noteq> None)
             \<and> dict_get r s = None"
    and "\<exists>r \<in> set rows. \<exists>c. row_chrom r = Some c \<and> c \<in> set tk"
  shows "roc_rows tk (ss1 @ s # ss2) rows d = Inl (KeyError s)"
  using assms
proof (induction rows arbitrary: d)
  case Nil
  then show ?case by simp
next
  case (Cons r rows)
  from Cons.prems(1) obtain c0 v where c0: "dict_get r ''#chrom'' = Some (Some c0)"
    and v: "dict_get r ''cov'' = Some v"
    and p: "\<forall>s' \<in> set ss1. dict_get r s' \<noteq> None" and n: "dict_get r s = None"
    by (cases "dict_get r ''#chrom''"; cases "dict_get r ''cov''") auto
  show ?case
  proof (cases "c0 \<noteq> ''#chrom'' \<and> py_strip ''chr'' c0 \<in> set tk")
    case True
    then show ?thesis
      by (simp add: roc_row_def c0 v Let_def append_samples_KeyError [OF p n])
  next
    case False
    then have s: "roc_row tk (ss1 @ s # ss2) r d = Inr d"
      by (auto simp: roc_row_def c0 Let_def)
    from False have "\<not> (\<exists>c. row_chrom r = Some c \<and> c \<in> set tk)"
      by (auto simp: row_chrom_def c0)
    with Cons.prems(2) have "\<exists>r \<in> set rows. \<exists>c. row_chrom r = Some c \<and> c \<in> set tk" by auto
    with Cons.IH Cons.prems(1) have "roc_rows tk (ss1 @ s # ss2) rows d = Inl (KeyError s)" by simp
    with s show ?thesis by simp
  qed
qed

text \<open>
  C4. The claim as stated fails: a file with a column \<^verbatim>\<open>s2\<close> that is not in the
  established sample set is parsed without an exception.
\<close>

theorem parse_roc_extra_column_accepted:
  "parse_roc (\<lambda>p. Inr ex_fh) ''idx.roc'' ex_traces [''s1''] = Inr ex_result_s1
   \<and> ''s2'' \<in> set (hd ex_fh) \<and> ''s2'' \<notin> set [''s1'']"
  by code_simp

text \<open>
  C4, amended. \<^verbatim>\<open>parse_roc\<close> reads of a row only the fields \<^verbatim>\<open>#chrom\<close>,
  \<^verbatim>\<open>cov\<close> and those named by the established samples, so a column of the file that
  is not in the established sample set is ignored. The run fails in the converse case,
  when the header of the file has no column for an established sample: if the collection
  has the key \<^verbatim>\<open>"chromosomes"\<close>, the header has the columns \<^verbatim>\<open>#chrom\<close> and
  \<^verbatim>\<open>cov\<close>, every row has its \<^verbatim>\<open>#chrom\<close> field and some data row belongs to a
  chromosome that is a key of the collection, then \<^verbatim>\<open>parse_roc\<close> raises
  \<^verbatim>\<open>KeyError\<close> for the first established sample without a column.
\<close>

theorem parse_roc_sample_columns:
  "(list_all2 (\<lambda>r r'. \<forall>k \<in> insert ''#chrom'' (insert ''cov'' (set samples)).
                         dict_get r k = dict_get r' k) (DictReader fh) (DictReader fh')
      \<longrightarrow> parse_roc (\<lambda>p. Inr fh) path traces samples = parse_roc (\<lambda>p. Inr fh') path traces samples)
   \<and> (''chromosomes'' \<in> set (keys traces)
        \<and> ''#chrom'' \<in> set fieldnames \<and> ''cov'' \<in> set fieldnames
        \<and> set ss1 \<subseteq> set fieldnames \<and> s \<notin> set fieldnames
        \<and> (\<forall>r \<in> set (DictReader (fieldnames # recs)). dict_get r ''#chrom'' \<noteq> Some None)
        \<and> r \<in> set (DictReader (fieldnames # recs)) \<and> row_chrom r = Some c \<and> c \<in> set (keys traces)
      \<longrightarrow> parse_roc (\<lambda>p. Inr (fieldnames # recs)) path traces (ss1 @ s # ss2) = Inl (KeyError s))"
proof (intro conjI impI)
  assume "list_all2 (\<lambda>r r'. \<forall>k \<in> insert ''#chrom'' (insert ''cov'' (set samples)).
                         dict_get r k = dict_get r' k) (DictReader fh) (DictReader fh')"
  then show "parse_roc (\<lambda>p. Inr fh) path traces samples = parse_roc (\<lambda>p. Inr fh') path traces samples"
    by (simp add: parse_roc_def Let_def roc_rows_cong)
next
  let ?rows = "DictReader (fieldnames # recs)"
  let ?tk = "keys (dict_set ''roc'' (JDict []) traces)"
  assume a: "''chromosomes'' \<in> set (keys traces)
        \<and> ''#chrom'' \<in> set fieldnames \<and> ''cov'' \<in> set fieldnames
        \<and> set ss1 \<subseteq> set fieldnames \<and> s \<notin> set fieldnames
        \<and> (\<forall>r \<in> set ?rows. dict_get r ''#chrom'' \<noteq> Some None)
        \<and> r \<in> set ?rows \<and> row_chrom r = Some c \<and> c \<in> set (keys traces)"
  have 1: "\<forall>r \<in> set ?rows. dict_get r ''#chrom'' \<noteq> None \<and> dict_get r ''#chrom'' \<noteq> Some None
             \<and> dict_get r ''cov'' \<noteq> None \<and> (\<forall>s' \<in> set ss1. dict_get r s' \<noteq> None)
             \<and> dict_get r s = None"
  proof
    fix r' assume r': "r' \<in> set ?rows"
    then obtain v where "r' = dict_row fieldnames v" using DictReader_rows by blast
    with a r' show "dict_get r' ''#chrom'' \<noteq> None \<and> dict_get r' ''#chrom'' \<noteq> Some None
             \<and> dict_get r' ''cov'' \<noteq> None \<and> (\<forall>s' \<in> set ss1. dict_get r' s' \<noteq> None)
             \<and> dict_get r' s = None"
      by (auto simp: dict_row_get_None)
  qed
  from a have "c \<in> set ?tk" by (simp add: keys_dict_set)
  with a have 2: "\<exists>r \<in> set ?rows. \<exists>c. row_chrom r = Some c \<and> c \<in> set ?tk" by blast
  from roc_rows_KeyError [OF 1 2] a
  show "parse_roc (\<lambda>p. Inr (fieldnames # recs)) path traces (ss1 @ s # ss2) = Inl (KeyError s)"
    by (simp add: parse_roc_def Let_def)
qed

theorem parse_roc_sample_columns_witness:
  "list_all2 (\<lambda>r r'. \<forall>k \<in> insert ''#chrom'' (insert ''cov'' (set [''s1''])).
                         dict_get r k = dict_get r' k) (DictReader ex_fh_x) (DictReader ex_fh_short)
   \<and> parse_roc (\<lambda>p. Inr ex_fh_x) ''idx.roc'' ex_traces [''s1'']
       = parse_roc (\<lambda>p. Inr ex_fh_short) ''idx.roc'' ex_traces [''s1'']
   \<and> ''chromosomes'' \<in> set (keys ex_traces)
   \<and> hd ex_fh_short = [''#chrom'', ''cov'', ''s1'']
   \<and> ''s2'' \<notin> set (hd ex_fh_short)
   \<and> list_all (\<lambda>r. dict_get r ''#chrom'' \<noteq> Some None) (DictReader ex_fh_short)
   \<and> dict_row [''#chrom'', ''cov'', ''s1''] [''chr1'', ''0.0'', ''0.9''] \<in> set (DictReader ex_fh_short)
   \<and> row_chrom (dict_row [''#chrom'', ''cov'', ''s1''] [''chr1'', ''0.0'', ''0.9'']) = Some ''1''
   \<and> ''1'' \<in> set (keys ex_traces)
   \<and> parse_roc (\<lambda>p. Inr ex_fh_short) ''idx.roc'' ex_traces [''s1'', ''s2''] = Inl (KeyError ''s2'')"
proof -
  let ?r = "dict_row [''#chrom'', ''cov'', ''s1''] [''chr1'', ''0.0'', ''0.9'']"
  let ?h = "hd ex_fh_short"
  have e: "?h # tl ex_fh_short = ex_fh_short" by (simp add: ex_fh_short_def)
  have h: "?h = [''#chrom'', ''cov'', ''s1'']" by (simp add: ex_fh_short_def)
  have a: "list_all2 (\<lambda>r r'. \<forall>k \<in> insert ''#chrom'' (insert ''cov'' (set [''s1''])).
                         dict_get r k = dict_get r' k) (DictReader ex_fh_x) (DictReader ex_fh_short)"
    by code_simp
  have b0: "''chromosomes'' \<in> set (keys ex_traces)" by code_simp
  have b1: "?r \<in> set (DictReader ex_fh_short)" by code_simp
  have b2: "row_chrom ?r = Some ''1''" by code_simp
  have b3: "''1'' \<in> set (keys ex_traces)" by code_simp
  have b4: "''s2'' \<notin> set ?h" by (simp add: h)
  have b5: "list_all (\<lambda>r. dict_get r ''#chrom'' \<noteq> Some None) (DictReader ex_fh_short)"
    by code_simp
  then have b6: "\<forall>r \<in> set (DictReader ex_fh_short). dict_get r ''#chrom'' \<noteq> Some None"
    by (simp add: list_all_iff)
  have b7: "''#chrom'' \<in> set ?h \<and> ''cov'' \<in> set ?h \<and> set [''s1''] \<subseteq> set ?h" by (simp add: h)
  from parse_roc_sample_columns [of "[''s1'']" ex_fh_x ex_fh_short "''idx.roc''" ex_traces] a
  have c: "parse_roc (\<lambda>p. Inr ex_fh_x) ''idx.roc'' ex_traces [''s1'']
       = parse_roc (\<lambda>p. Inr ex_fh_short) ''idx.roc'' ex_traces [''s1'']" by blast
  from parse_roc_sample_columns [of "[]" "[]" "[]" "''idx.roc''" ex_traces
      ?h "[''s1'']" "''s2''" "tl ex_fh_short" ?r "''1''" "[]"] b0 b1 b2 b3 b4 b6 b7
  have d: "parse_roc (\<lambda>p. Inr ex_fh_short) ''idx.roc'' ex_traces [''s1'', ''s2''] = Inl (KeyError ''s2'')"
    unfolding e by simp
  from a b0 b1 b2 b3 b4 b5 c d h show ?thesis by blast
qed

subsection \<open>The payload packer\<close>

text \<open>
  C1. The code departs from the claim on a payload with a string that contains the
  text \<^verbatim>\<open>NaN\<close>: line 159 replaces the text inside the string too, so what the
  compressor receives, and a lossless decompressor returns, is not the serialization
  in which only the not-a-number values became null. The identity stands for a
  lossless compressor.
\<close>

theorem compress_data_rewrites_strings:
  "json_str ex_nan_data =
     ''{'' @ [CHR 0x22] @ ''text'' @ [CHR 0x22] @ '': '' @ [CHR 0x22] @ ''null_1'' @ [CHR 0x22]
       @ '', '' @ [CHR 0x22] @ ''y'' @ [CHR 0x22] @ '': [null]}''
   \<and> dumps (nan_to_null ex_nan_data) =
     ''{'' @ [CHR 0x22] @ ''text'' @ [CHR 0x22] @ '': '' @ [CHR 0x22] @ ''NaN_1'' @ [CHR 0x22]
       @ '', '' @ [CHR 0x22] @ ''y'' @ [CHR 0x22] @ '': [null]}''
   \<and> compress_data (\<lambda>s. s) ex_nan_data \<noteq> dumps (nan_to_null ex_nan_data)"
  by code_simp

subsection \<open>The driver\<close>

lemma file_events_Log [simp]: "file_events (Log m # evs) = file_events evs"
  by (simp add: file_events_def)

lemma file_events_Nil [simp]: "file_events [] = []"
  by (simp add: file_events_def)

lemma file_events_append [simp]: "file_events (xs @ ys) = file_events xs @ file_events ys"
  by (simp add: file_events_def)

lemma ped_stage_logs: "ped_stage e a t = (r, evs) \<Longrightarrow> file_events evs = []"
  by (auto simp: ped_stage_def split: option.splits if_splits)

lemma ped_stage_no_print: "ped_stage e a t = (r, evs) \<Longrightarrow> Print p s \<notin> set evs"
  by (auto simp: ped_stage_def split: option.splits if_splits)

lemma write_report_Print:
  "write_report e a t = (r, evs) \<Longrightarrow> Print p s \<in> set evs \<Longrightarrow> r = Inr ()"
  by (auto simp: write_report_def Let_def split: if_splits sum.splits)

lemma write_report_Inr:
  "write_report e a t = (Inr u, evs) \<Longrightarrow>
     \<exists>html. file_events evs = [Open_w (output a), Print (output a) (html @ [CHR 0x0A])]"
  by (auto simp: write_report_def Let_def file_events_def split: if_splits sum.splits)

lemma cli_body_stage_raises:
  assumes "stage_raises e a x"
  shows "fst (cli_body e a z) = Inl x \<and> file_events (snd (cli_body e a z)) = []"
  using assms
proof cases
  case bed_raises
  then show ?thesis by (simp add: cli_body_def)
next
  case (gff_raises t1 samples)
  then show ?thesis by (simp add: cli_body_def)
next
  case (roc_raises t1 samples t2)
  then show ?thesis by (simp add: cli_body_def)
next
  case (ped_raises t1 samples t2 t3 p)
  then show ?thesis by (simp add: cli_body_def ped_stage_def)
qed

lemma cli_body_Print:
  assumes "Print p s \<in> set (snd (cli_body e a z))"
  shows "fst (cli_body e a z) = Inr ()"
  using assms unfolding cli_body_def Let_def
  by (auto split: sum.splits prod.splits dest: ped_stage_no_print write_report_Print)

lemma cli_body_Inr:
  assumes "fst (cli_body e a z) = Inr ()"
  shows "\<exists>html. file_events (snd (cli_body e a z))
           = [Open_w (output a), Print (output a) (html @ [CHR 0x0A])]"
proof -
  from assms obtain t3 t4 ev ev' logs where
    p: "ped_stage e a t3 = (Inr t4, ev)"
    and w: "write_report e a t4 = (Inr (), ev')"
    and s: "snd (cli_body e a z) = logs @ (ev @ ev')" and l: "file_events logs = []"
    unfolding cli_body_def Let_def
    by (fastforce split: sum.splits prod.splits)
  from ped_stage_logs [OF p] write_report_Inr [OF w] s l show ?thesis by simp
qed

text \<open>
  C2. When a parsing stage (bed, gff, roc or ped) raises, \<^verbatim>\<open>cli\<close> ends with that
  exception and has neither opened nor printed to the output file. The report is
  printed only by a run that completes normally, and such a run opens the output
  file and prints the report to it.
\<close>

theorem cli_parse_failure_writes_nothing:
  "(stage_raises e (parse_args c) x \<longrightarrow>
      fst (cli e c) = Inl x \<and> file_events (snd (cli e c)) = [])
   \<and> (Print p s \<in> set (snd (cli e c)) \<longrightarrow> fst (cli e c) = Inr ())
   \<and> (fst (cli e c) = Inr () \<longrightarrow>
        (\<exists>html. file_events (snd (cli e c))
           = [Open_w (output (parse_args c)), Print (output (parse_args c)) (html @ [CHR 0x0A])]))"
  unfolding cli_def Let_def
  using cli_body_stage_raises cli_body_Print cli_body_Inr by blast

theorem cli_parse_failure_writes_nothing_witness:
  "stage_raises ex_bad_roc_env (parse_args ex_cmdline) (IOError ''idx.roc'')
   \<and> fst (cli ex_bad_roc_env ex_cmdline) = Inl (IOError ''idx.roc'')
   \<and> file_events (snd (cli ex_bad_roc_env ex_cmdline)) = []
   \<and> Print ''covviz_report.html''
        (''<html>'' @ json_str (JDict ex_result) @ ''</html>'' @ [CHR 0x0A])
       \<in> set (snd (cli ex_env ex_cmdline))
   \<and> fst (cli ex_env ex_cmdline) = Inr ()
   \<and> (\<exists>html. file_events (snd (cli ex_env ex_cmdline))
           = [Open_w (output (parse_args ex_cmdline)),
              Print (output (parse_args ex_cmdline)) (html @ [CHR 0x0A])])"
proof -
  have r: "stage_raises ex_bad_roc_env (parse_args ex_cmdline) (IOError ''idx.roc'')"
    by (rule stage_raises.roc_raises [where ?t1.0 = ex_traces and samples = "[''s1'', ''s2'']" and ?t2.0 = ex_traces])
       (simp_all add: ex_bad_roc_env_def ex_env_def parse_args_def ex_cmdline_def parse_roc_def keys_def ex_traces_def)
  have p: "Print ''covviz_report.html''
        (''<html>'' @ json_str (JDict ex_result) @ ''</html>'' @ [CHR 0x0A])
       \<in> set (snd (cli ex_env ex_cmdline))"
    by (simp add: cli_def cli_body_def ex_env_def ex_parse_roc ped_stage_def write_report_def parse_args_def ex_cmdline_def or_default_def Let_def compress_data_def)
  from cli_parse_failure_writes_nothing [of ex_bad_roc_env ex_cmdline "IOError ''idx.roc''"] r
  have a: "fst (cli ex_bad_roc_env ex_cmdline) = Inl (IOError ''idx.roc'')"
    "file_events (snd (cli ex_bad_roc_env ex_cmdline)) = []" by simp_all
  from cli_parse_failure_writes_nothing [of ex_env ex_cmdline _
      "''covviz_report.html''" "''<html>'' @ json_str (JDict ex_result) @ ''</html>'' @ [CHR 0x0A]"] p
  have b: "fst (cli ex_env ex_cmdline) = Inr ()"
     "\<exists>html. file_events (snd (cli ex_env ex_cmdline))
           = [Open_w (output (parse_args ex_cmdline)),
              Print (output (parse_args ex_cmdline)) (html @ [CHR 0x0A])]" by simp_all
  from r a p b show ?thesis by simp
qed

text \<open>
  C8. The claim as stated fails: with a distance threshold of 0 and a slop of -1 and
  collaborators that accept their inputs, the run completes and writes the report.
\<close>

theorem cli_accepts_nonpositive_thresholds:
  "given_distance_threshold ex_cmdline = Some 0
   \<and> given_slop ex_cmdline = Some (- 1)
   \<and> distance_threshold (parse_args ex_cmdline) = 0
   \<and> slop (parse_args ex_cmdline) = - 1
   \<and> fst (cli ex_env ex_cmdline) = Inr ()
   \<and> file_events (snd (cli ex_env ex_cmdline)) =
        [Open_w ''covviz_report.html'',
         Print ''covviz_report.html''
           (''<html>'' @ json_str (JDict ex_result) @ ''</html>'' @ [CHR 0x0A])]"
  apply (intro conjI)
  apply (simp add: ex_cmdline_def)
  apply (simp add: ex_cmdline_def)
  apply (simp add: ex_cmdline_def parse_args_def or_default_def)
  apply (simp add: ex_cmdline_def parse_args_def or_default_def)
  apply (simp add: cli_def cli_body_def ex_env_def ex_parse_roc ped_stage_def write_report_def parse_args_def ex_cmdline_def or_default_def Let_def compress_data_def)
  apply (simp add: cli_def cli_body_def ex_env_def ex_parse_roc ped_stage_def write_report_def parse_args_def ex_cmdline_def or_default_def Let_def compress_data_def file_events_def)
  done

text \<open>
  C8, amended. \<^verbatim>\<open>parse_args\<close> takes any integer for the distance threshold and the
  slop, and \<^verbatim>\<open>cli\<close> hands them to \<^verbatim>\<open>parse_bed\<close> as they are: a run ends at the
  bed stage exactly with the exception \<^verbatim>\<open>parse_bed\<close> raises, and goes on to the gff
  stage when \<^verbatim>\<open>parse_bed\<close> returns.
\<close>

theorem cli_thresholds_not_validated:
  "distance_threshold (parse_args c) = or_default (given_distance_threshold c) 150000
   \<and> slop (parse_args c) = or_default (given_slop c) 500000
   \<and> (parse_bed e (bed (parse_args c)) (exclude (parse_args c)) (ped (parse_args c))
         (sample_col (parse_args c)) (sex_col (parse_args c)) (sex_chroms (parse_args c))
         (z_threshold (parse_args c)) (or_default (given_distance_threshold c) 150000)
         (or_default (given_slop c) 500000) (min_samples (parse_args c)) = Inl x
       \<longrightarrow> cli e c = (Inl x, [Log (percent_s ''parsing bed file'' (Some (given_bed c)))]))
   \<and> (parse_bed e (bed (parse_args c)) (exclude (parse_args c)) (ped (parse_args c))
         (sample_col (parse_args c)) (sex_col (parse_args c)) (sex_chroms (parse_args c))
         (z_threshold (parse_args c)) (or_default (given_distance_threshold c) 150000)
         (or_default (given_slop c) 500000) (min_samples (parse_args c)) = Inr (traces, samples)
       \<longrightarrow> (\<exists>evs. snd (cli e c) =
                  Log (percent_s ''parsing bed file'' (Some (given_bed c)))
                  # Log (percent_s ''parsing gff file'' (given_gff c)) # evs))"
proof -
  have d: "distance_threshold (parse_args c) = or_default (given_distance_threshold c) 150000"
    and s: "slop (parse_args c) = or_default (given_slop c) 500000"
    and b: "bed (parse_args c) = given_bed c" and g: "gff (parse_args c) = given_gff c"
    by (simp_all add: parse_args_def)
  show ?thesis
    unfolding cli_def cli_body_def Let_def d s b g
    by (auto split: sum.splits prod.splits)
qed

theorem cli_thresholds_not_validated_witness:
  "given_distance_threshold ex_cmdline = Some 0 \<and> given_slop ex_cmdline = Some (- 1)
   \<and> distance_threshold (parse_args ex_cmdline) = 0 \<and> slop (parse_args ex_cmdline) = - 1
   \<and> cli ex_bad_bed_env ex_cmdline
        = (Inl (Raised ''bad bed''), [Log ''parsing bed file (cov.bed.gz)''])
   \<and> (\<exists>evs. snd (cli ex_env ex_cmdline) =
          Log ''parsing bed file (cov.bed.gz)'' # Log ''parsing gff file (None)'' # evs)"
proof -
  have g: "given_distance_threshold ex_cmdline = Some 0" "given_slop ex_cmdline = Some (- 1)"
    "given_bed ex_cmdline = ''cov.bed.gz''" "given_gff ex_cmdline = None"
    by (simp_all add: ex_cmdline_def)
  have b1: "parse_bed ex_bad_bed_env b ex p sc sx sch z d s m = Inl (Raised ''bad bed'')"
    for b ex p sc sx sch z d s m
    by (simp add: ex_bad_bed_env_def)
  have b2: "parse_bed ex_env b ex p sc sx sch z d s m = Inr (ex_traces, [''s1'', ''s2''])"
    for b ex p sc sx sch z d s m
    by (simp add: ex_env_def)
  from cli_thresholds_not_validated [of ex_cmdline ex_bad_bed_env "Raised ''bad bed''"]
       cli_thresholds_not_validated [of ex_cmdline ex_env _ ex_traces "[''s1'', ''s2'']"]
  show ?thesis
    by (simp add: g b1 b2 or_default_def percent_s_def)
qed

text \<open>
  C10. Whatever the collaborators are, \<^verbatim>\<open>cli\<close> calls the bed parser with the
  \<^verbatim>\<open>--exclude\<close> argument as it was typed (or the default): the run ends with the
  exception the parser raises on that pattern, and goes on to the gff stage with the
  traces the parser returns on it. What the parser would do on any other pattern, the
  normalized one included, changes nothing, a parser that raises the pattern it is
  given raises the raw one, and the value of the local \<^verbatim>\<open>exclude\<close> of line 171
  does not matter to what \<^verbatim>\<open>cli\<close> does.
\<close>

theorem cli_passes_raw_exclude:
  "cli e c = cli_body e (parse_args c) z
   \<and> fst (cli (e \<lparr> parse_bed := (\<lambda>b ex p sc sx sch zt d s m. Inl (Raised ex)) \<rparr>) c)
       = Inl (Raised (or_default (given_exclude c) default_exclude))
   \<and> (parse_bed e (bed (parse_args c)) (or_default (given_exclude c) default_exclude)
         (ped (parse_args c)) (sample_col (parse_args c)) (sex_col (parse_args c))
         (sex_chroms (parse_args c)) (z_threshold (parse_args c))
         (distance_threshold (parse_args c)) (slop (parse_args c)) (min_samples (parse_args c))
         = Inl x
       \<longrightarrow> cli e c = (Inl x, [Log (percent_s ''parsing bed file'' (Some (given_bed c)))]))
   \<and> (parse_bed e (bed (parse_args c)) (or_default (given_exclude c) default_exclude)
         (ped (parse_args c)) (sample_col (parse_args c)) (sex_col (parse_args c))
         (sex_chroms (parse_args c)) (z_threshold (parse_args c))
         (distance_threshold (parse_args c)) (slop (parse_args c)) (min_samples (parse_args c))
         = Inr (traces, samples)
       \<longrightarrow> (\<exists>evs. snd (cli e c) =
                  Log (percent_s ''parsing bed file'' (Some (given_bed c)))
                  # Log (percent_s ''parsing gff file'' (given_gff c)) # evs)
           \<and> (parse_gff e (given_gff c) traces = Inl y
                \<longrightarrow> cli e c = (Inl y, [Log (percent_s ''parsing bed file'' (Some (given_bed c))),
                                        Log (percent_s ''parsing gff file'' (given_gff c))])))
   \<and> ((\<forall>b p sc sx sch zt d s m.
          pb b (or_default (given_exclude c) default_exclude) p sc sx sch zt d s m
            = parse_bed e b (or_default (given_exclude c) default_exclude) p sc sx sch zt d s m)
       \<longrightarrow> cli (e \<lparr> parse_bed := pb \<rparr>) c = cli e c)"
proof -
  have x: "exclude (parse_args c) = or_default (given_exclude c) default_exclude"
    and b: "bed (parse_args c) = given_bed c" and g: "gff (parse_args c) = given_gff c"
    by (simp_all add: parse_args_def)
  have 1: "cli e c = cli_body e (parse_args c) z"
    by (simp add: cli_def cli_body_def Let_def)
  have 2: "fst (cli (e \<lparr> parse_bed := (\<lambda>b ex p sc sx sch zt d s m. Inl (Raised ex)) \<rparr>) c)
       = Inl (Raised (or_default (given_exclude c) default_exclude))"
    using x by (simp add: cli_def cli_body_def Let_def)
  have 3: "cli e c = (Inl x, [Log (percent_s ''parsing bed file'' (Some (given_bed c)))])"
    if "parse_bed e (bed (parse_args c)) (or_default (given_exclude c) default_exclude)
         (ped (parse_args c)) (sample_col (parse_args c)) (sex_col (parse_args c))
         (sex_chroms (parse_args c)) (z_threshold (parse_args c))
         (distance_threshold (parse_args c)) (slop (parse_args c)) (min_samples (parse_args c))
         = Inl x"
    using that by (simp add: cli_def cli_body_def Let_def x b)
  have 4: "(\<exists>evs. snd (cli e c) =
                  Log (percent_s ''parsing bed file'' (Some (given_bed c)))
                  # Log (percent_s ''parsing gff file'' (given_gff c)) # evs)
           \<and> (parse_gff e (given_gff c) traces = Inl y
                \<longrightarrow> cli e c = (Inl y, [Log (percent_s ''parsing bed file'' (Some (given_bed c))),
                                        Log (percent_s ''parsing gff file'' (given_gff c))]))"
    if "parse_bed e (bed (parse_args c)) (or_default (given_exclude c) default_exclude)
         (ped (parse_args c)) (sample_col (parse_args c)) (sex_col (parse_args c))
         (sex_chroms (parse_args c)) (z_threshold (parse_args c))
         (distance_threshold (parse_args c)) (slop (parse_args c)) (min_samples (parse_args c))
         = Inr (traces, samples)"
    using that unfolding cli_def cli_body_def Let_def x b g
    by (auto split: sum.splits prod.splits)
  have 5: "cli (e \<lparr> parse_bed := pb \<rparr>) c = cli e c"
    if "\<forall>b p sc sx sch zt d s m.
          pb b (or_default (given_exclude c) default_exclude) p sc sx sch zt d s m
            = parse_bed e b (or_default (given_exclude c) default_exclude) p sc sx sch zt d s m"
  proof -
    have ps: "ped_stage (e \<lparr> parse_bed := pb \<rparr>) a t = ped_stage e a t" for a t
      by (auto simp: ped_stage_def split: option.splits)
    have wr: "write_report (e \<lparr> parse_bed := pb \<rparr>) a t = write_report e a t" for a t
      by (auto simp: write_report_def Let_def split: sum.splits)
    from that show ?thesis
      by (simp add: cli_def cli_body_def Let_def x ps wr
            cong: sum.case_cong prod.case_cong)
  qed
  from 1 2 3 4 5 show ?thesis by blast
qed

theorem cli_passes_raw_exclude_witness:
  "given_exclude ex_cmdline = Some ''~^GL,^hs''
   \<and> py_replace '','' ''|'' (py_replace ''~'' '''' ''~^GL,^hs'') = ''^GL|^hs''
   \<and> cli ex_env ex_cmdline = cli_body ex_env (parse_args ex_cmdline) ''anything''
   \<and> fst (cli (ex_env \<lparr> parse_bed := (\<lambda>b ex p sc sx sch zt d s m. Inl (Raised ex)) \<rparr>) ex_cmdline)
       = Inl (Raised ''~^GL,^hs'')
   \<and> cli ex_bad_bed_env ex_cmdline
       = (Inl (Raised ''bad bed''), [Log ''parsing bed file (cov.bed.gz)''])
   \<and> (\<exists>evs. snd (cli ex_bad_gff_env ex_cmdline) =
          Log ''parsing bed file (cov.bed.gz)'' # Log ''parsing gff file (None)'' # evs)
   \<and> cli ex_bad_gff_env ex_cmdline
       = (Inl (Raised ''bad gff''),
          [Log ''parsing bed file (cov.bed.gz)'', Log ''parsing gff file (None)''])
   \<and> ex_picky_bed ''cov.bed.gz'' ''^GL|^hs'' None ''sample_id'' ''sex'' ''X,Y'' 3.5 0 (- 1) 8
       = Inl (Raised ''normalized pattern'')
   \<and> cli (ex_env \<lparr> parse_bed := ex_picky_bed \<rparr>) ex_cmdline = cli ex_env ex_cmdline"
proof -
  have g: "given_exclude ex_cmdline = Some ''~^GL,^hs''"
    "given_bed ex_cmdline = ''cov.bed.gz''" "given_gff ex_cmdline = None"
    by (simp_all add: ex_cmdline_def)
  have 2: "py_replace '','' ''|'' (py_replace ''~'' '''' ''~^GL,^hs'') = ''^GL|^hs''"
    by code_simp
  have b1: "parse_bed ex_bad_bed_env b ex p sc sx sch z d s m = Inl (Raised ''bad bed'')"
    for b ex p sc sx sch z d s m
    by (simp add: ex_bad_bed_env_def)
  have b2: "parse_bed ex_bad_gff_env b ex p sc sx sch z d s m = Inr (ex_traces, [''s1'', ''s2''])"
    for b ex p sc sx sch z d s m
    by (simp add: ex_bad_gff_env_def ex_env_def)
  have b3: "parse_gff ex_bad_gff_env gf t = Inl (Raised ''bad gff'')" for gf t
    by (simp add: ex_bad_gff_env_def)
  have b4: "ex_picky_bed b ''~^GL,^hs'' p sc sx sch z d s m = parse_bed ex_env b ''~^GL,^hs'' p sc sx sch z d s m"
    for b p sc sx sch z d s m
    by (simp add: ex_picky_bed_def ex_env_def)
  have b5: "ex_picky_bed ''cov.bed.gz'' ''^GL|^hs'' None ''sample_id'' ''sex'' ''X,Y'' 3.5 0 (- 1) 8
       = Inl (Raised ''normalized pattern'')"
    by (simp add: ex_picky_bed_def)
  note t1 = cli_passes_raw_exclude [of ex_bad_bed_env ex_cmdline "''anything''"
      "Raised ''bad bed''" ex_traces "[]" "Raised ''bad gff''" ex_picky_bed]
  note t2 = cli_passes_raw_exclude [of ex_bad_gff_env ex_cmdline "''anything''"
      "Raised ''bad bed''" ex_traces "[''s1'', ''s2'']" "Raised ''bad gff''" ex_picky_bed]
  note t3 = cli_passes_raw_exclude [of ex_env ex_cmdline "''anything''"
      "Raised ''bad bed''" ex_traces "[''s1'', ''s2'']" "Raised ''bad gff''" ex_picky_bed]
  from t1 b1 have "cli ex_bad_bed_env ex_cmdline
       = (Inl (Raised ''bad bed''),
          [Log (percent_s ''parsing bed file'' (Some (given_bed ex_cmdline)))])"
    by blast
  then have c3: "cli ex_bad_bed_env ex_cmdline
       = (Inl (Raised ''bad bed''), [Log ''parsing bed file (cov.bed.gz)''])"
    by (simp add: g percent_s_def)
  from t2 b2 b3 have "(\<exists>evs. snd (cli ex_bad_gff_env ex_cmdline) =
          Log (percent_s ''parsing bed file'' (Some (given_bed ex_cmdline)))
          # Log (percent_s ''parsing gff file'' (given_gff ex_cmdline)) # evs)
     \<and> cli ex_bad_gff_env ex_cmdline
       = (Inl (Raised ''bad gff''),
          [Log (percent_s ''parsing bed file'' (Some (given_bed ex_cmdline))),
           Log (percent_s ''parsing gff file'' (given_gff ex_cmdline))])"
    by blast
  then have c4: "\<exists>evs. snd (cli ex_bad_gff_env ex_cmdline) =
          Log ''parsing bed file (cov.bed.gz)'' # Log ''parsing gff file (None)'' # evs"
    and c5: "cli ex_bad_gff_env ex_cmdline
       = (Inl (Raised ''bad gff''),
          [Log ''parsing bed file (cov.bed.gz)'', Log ''parsing gff file (None)''])"
    by (simp_all add: g percent_s_def)
  have x: "or_default (given_exclude ex_cmdline) default_exclude = ''~^GL,^hs''"
    by (simp add: g or_default_def)
  from t3 have c1: "cli ex_env ex_cmdline = cli_body ex_env (parse_args ex_cmdline) ''anything''"
    by blast
  from t3 have c2: "fst (cli (ex_env \<lparr> parse_bed := (\<lambda>b ex p sc sx sch zt d s m. Inl (Raised ex)) \<rparr>) ex_cmdline)
       = Inl (Raised ''~^GL,^hs'')"
    unfolding x by blast
  from t3 b4 have c6: "cli (ex_env \<lparr> parse_bed := ex_picky_bed \<rparr>) ex_cmdline = cli ex_env ex_cmdline"
    unfolding x by blast
  from g(1) 2 c1 c2 c3 c4 c5 b5 c6 show ?thesis by blast
qed

end
